theory Spec2Isabelle
  imports Main
begin

section \<open>Run context and condition expressions\<close>

text \<open>
  The program is the workflow definition \<^verbatim>\<open>Image Processing CI/CD Pipeline\<close>: six
  jobs with \<^verbatim>\<open>needs\<close> edges, \<^verbatim>\<open>if\<close> conditions, two matrix strategies and two
  deployment environments. It is embedded as data (the job table) together with the
  meaning the workflow language gives to that data: expression evaluation, matrix
  expansion, the implicit \<^verbatim>\<open>success()\<close> guard of jobs and steps, the default of
  \<^verbatim>\<open>strategy.fail-fast\<close>, and the commands the deploy and build steps run.

  The workflow is triggered by exactly three events (\<^verbatim>\<open>on: push, pull_request,
  workflow_dispatch\<close>).

  Besides the fields of the \<^verbatim>\<open>github\<close> context that the workflow reads, the run context
  holds the manifests of the commit that is checked out: for a directory, its manifest
  files, each with its name and its lines. The \<^verbatim>\<open>k8s\<close> directories are not among the
  sources, so their content is left open.
\<close>

datatype event_kind = Push | PullRequest | WorkflowDispatch

fun event_name :: "event_kind \<Rightarrow> string" where
  "event_name Push = ''push''"
| "event_name PullRequest = ''pull_request''"
| "event_name WorkflowDispatch = ''workflow_dispatch''"

record RunContext =
  github_event :: event_kind
  github_ref :: string
  github_sha :: string
  github_repository :: string
  github_inputs :: "(string \<times> string) list"
  workspace_manifests :: "string \<Rightarrow> (string \<times> string list) list"

type_synonym binding = "(string \<times> string) list"

text \<open>
  The operands that occur in the workflow's conditions: string literals,
  \<^verbatim>\<open>github.ref\<close>, \<^verbatim>\<open>github.event_name\<close>, \<^verbatim>\<open>github.event.inputs.<name>\<close> and
  \<^verbatim>\<open>matrix.<axis>\<close>. An input or matrix variable that is not set reads as the empty
  string.
\<close>

datatype operand = Lit string | GithubRef | GithubEventName | EventInput string | Matrix string

datatype status_fn = FnSuccess | FnFailure | FnAlways

datatype expr = Eq operand operand | And expr expr | Or expr expr | Status status_fn

definition lookup_str :: "(string \<times> string) list \<Rightarrow> string \<Rightarrow> string" where
  "lookup_str kvs k = (case map_of kvs k of None \<Rightarrow> [] | Some v \<Rightarrow> v)"

fun operand_value :: "RunContext \<Rightarrow> binding \<Rightarrow> operand \<Rightarrow> string" where
  "operand_value ctx b (Lit s) = s"
| "operand_value ctx b GithubRef = github_ref ctx"
| "operand_value ctx b GithubEventName = event_name (github_event ctx)"
| "operand_value ctx b (EventInput n) = lookup_str (github_inputs ctx) n"
| "operand_value ctx b (Matrix a) = lookup_str b a"

text \<open>The \<^verbatim>\<open>==\<close> of the expression language ignores letter case on strings.\<close>

definition lower_char :: "char \<Rightarrow> char" where
  "lower_char c =
     (let n = (of_char c :: nat) in if 65 \<le> n \<and> n \<le> 90 then char_of (n + 32) else c)"

definition str_eq :: "string \<Rightarrow> string \<Rightarrow> bool" where
  "str_eq x y = (map lower_char x = map lower_char y)"

text \<open>
  \<open>ok\<close> is the value of \<^verbatim>\<open>success()\<close> and \<open>failed\<close> the value of \<^verbatim>\<open>failure()\<close> at
  the place where the expression is evaluated (a job or a step).
\<close>

fun eval_expr :: "RunContext \<Rightarrow> binding \<Rightarrow> bool \<Rightarrow> bool \<Rightarrow> expr \<Rightarrow> bool" where
  "eval_expr ctx b ok failed (Eq x y) = str_eq (operand_value ctx b x) (operand_value ctx b y)"
| "eval_expr ctx b ok failed (And p q) = (eval_expr ctx b ok failed p \<and> eval_expr ctx b ok failed q)"
| "eval_expr ctx b ok failed (Or p q) = (eval_expr ctx b ok failed p \<or> eval_expr ctx b ok failed q)"
| "eval_expr ctx b ok failed (Status FnSuccess) = ok"
| "eval_expr ctx b ok failed (Status FnFailure) = failed"
| "eval_expr ctx b ok failed (Status FnAlways) = True"

fun has_status_fn :: "expr \<Rightarrow> bool" where
  "has_status_fn (Eq x y) = False"
| "has_status_fn (And p q) = (has_status_fn p \<or> has_status_fn q)"
| "has_status_fn (Or p q) = (has_status_fn p \<or> has_status_fn q)"
| "has_status_fn (Status f) = True"

text \<open>
  An \<^verbatim>\<open>if\<close> that is absent means \<^verbatim>\<open>success()\<close>; an \<^verbatim>\<open>if\<close> that calls no status
  function is guarded by an implicit \<^verbatim>\<open>success() &&\<close>.
\<close>

definition if_holds :: "RunContext \<Rightarrow> binding \<Rightarrow> bool \<Rightarrow> bool \<Rightarrow> expr option \<Rightarrow> bool" where
  "if_holds ctx b ok failed c =
     (case c of
        None \<Rightarrow> ok
      | Some e \<Rightarrow> if has_status_fn e then eval_expr ctx b ok failed e
                  else ok \<and> eval_expr ctx b ok failed e)"

section \<open>Matrix expansion\<close>

text \<open>
  One instance per combination of axis values, the first axis varying slowest; a job
  without \<^verbatim>\<open>strategy.matrix\<close> has the single empty combination.
\<close>

fun expand :: "(string \<times> string list) list \<Rightarrow> binding list" where
  "expand [] = [[]]"
| "expand ((a, vs) # axes) = concat (map (\<lambda>v. map (\<lambda>b. (a, v) # b) (expand axes)) vs)"

section \<open>Jobs and steps of the workflow\<close>

datatype sha_format = Short | Long

text \<open>The tag rules of the metadata step of \<^verbatim>\<open>build\<close>.\<close>

datatype tag_rule = RefBranch | RefPr | Semver string | Sha sha_format string

datatype action =
    Uses string
  | Sh "string list"
  | ExtractMetadata "tag_rule list"
  | BuildPush
  | SetImageNames
  | DeployToKubernetes string
  | VerifyDeployment string "string list"
  | SmokeTests string

record StepSpec =
  step_name :: string
  step_if :: "expr option"
  continue_on_error :: bool
  reads :: "string list"
  act :: action

record JobSpec =
  job_id :: string
  needs :: "string list"
  job_if :: "expr option"
  matrix :: "(string \<times> string list) list"
  fail_fast :: "bool option"
  environment :: "string option"
  steps :: "StepSpec list"

definition step :: "string \<Rightarrow> action \<Rightarrow> StepSpec" where
  "step n a = \<lparr>step_name = n, step_if = None, continue_on_error = False, reads = [], act = a\<rparr>"

definition step_when :: "expr \<Rightarrow> string \<Rightarrow> action \<Rightarrow> StepSpec" where
  "step_when c n a = (step n a)\<lparr>step_if := Some c\<rparr>"

definition component_is :: "string \<Rightarrow> expr" where
  "component_is c = Eq (Matrix ''component'') (Lit c)"

definition components :: "string list" where
  "components = [''frontend'', ''backend'', ''ml-service'']"

definition lint :: JobSpec where
  "lint = \<lparr>job_id = ''lint'', needs = [], job_if = None,
     matrix = [(''component'', components)], fail_fast = None, environment = None,
     steps =
      [step ''Checkout repository'' (Uses ''actions/checkout@v3''),
       step_when (component_is ''frontend'') ''Set up Node.js (Frontend)''
         (Uses ''actions/setup-node@v3''),
       step_when (component_is ''frontend'') ''Install frontend dependencies'' (Sh [''npm ci'']),
       step_when (component_is ''frontend'') ''Lint frontend'' (Sh [''npm run lint'']),
       step_when (Or (component_is ''backend'') (component_is ''ml-service''))
         ''Set up Python (Backend & ML Service)'' (Uses ''actions/setup-python@v4''),
       step_when (component_is ''backend'') ''Install backend dependencies''
         (Sh [''pip install -r requirements.txt'']),
       step_when (component_is ''backend'') ''Lint backend''
         (Sh [''pip install flake8 black'',
              ''flake8 . --count --select=E9,F63,F7,F82 --show-source --statistics'',
              ''black --check .'']),
       step_when (component_is ''ml-service'') ''Install ML service dependencies''
         (Sh [''pip install -r requirements.txt'']),
       step_when (component_is ''ml-service'') ''Lint ML service''
         (Sh [''pip install flake8 black'',
              ''flake8 . --count --select=E9,F63,F7,F82 --show-source --statistics'',
              ''black --check .''])]\<rparr>"

definition security_scan :: JobSpec where
  "security_scan = \<lparr>job_id = ''security-scan'', needs = [''lint''], job_if = None,
     matrix = [], fail_fast = None, environment = None,
     steps =
      [step ''Checkout repository'' (Uses ''actions/checkout@v3''),
       step ''Run Trivy vulnerability scanner for Docker images''
         (Uses ''aquasecurity/trivy-action@master''),
       (step ''Run dependency scanning'' (Uses ''snyk/actions/node@master''))
         \<lparr>continue_on_error := True, reads := [''secrets.SNYK_TOKEN'']\<rparr>]\<rparr>"

definition test :: JobSpec where
  "test = \<lparr>job_id = ''test'', needs = [''lint''], job_if = None,
     matrix = [], fail_fast = None, environment = None,
     steps =
      [step ''Checkout repository'' (Uses ''actions/checkout@v3''),
       step ''Set up Node.js'' (Uses ''actions/setup-node@v3''),
       step ''Install frontend dependencies'' (Sh [''npm ci'']),
       step ''Run frontend tests'' (Sh [''npm test -- --coverage'']),
       step ''Set up Python'' (Uses ''actions/setup-python@v4''),
       step ''Install backend dependencies''
         (Sh [''pip install -r requirements.txt'', ''pip install -r requirements-dev.txt'']),
       step ''Run backend tests'' (Sh [''pytest --cov=app --cov-report=xml'']),
       step ''Install ML service dependencies'' (Sh [''pip install -r requirements.txt'']),
       step ''Run ML service tests'' (Sh [''pytest --cov=app --cov-report=xml'']),
       step ''Upload coverage to Codecov'' (Uses ''codecov/codecov-action@v3'')]\<rparr>"

definition build :: JobSpec where
  "build = \<lparr>job_id = ''build'', needs = [''test'', ''security-scan''],
     job_if = Some (Or (Eq GithubEventName (Lit ''push''))
                       (Eq GithubEventName (Lit ''workflow_dispatch''))),
     matrix = [(''component'', components)], fail_fast = None, environment = None,
     steps =
      [step ''Checkout repository'' (Uses ''actions/checkout@v3''),
       step ''Set up Docker Buildx'' (Uses ''docker/setup-buildx-action@v2''),
       (step ''Login to GitHub Container Registry'' (Uses ''docker/login-action@v2''))
         \<lparr>reads := [''secrets.GITHUB_TOKEN'']\<rparr>,
       step ''Extract metadata''
         (ExtractMetadata [RefBranch, RefPr, Semver ''{{version}}'', Sha Long '''']),
       step ''Build and push Docker image'' BuildPush]\<rparr>"

text \<open>
  The two deploy jobs run the same eight steps; they differ in the manifest directory,
  the namespace and the variable holding the base URL.
\<close>

definition deploy_steps :: "string \<Rightarrow> string \<Rightarrow> string \<Rightarrow> StepSpec list" where
  "deploy_steps dir ns url_var =
      [step ''Checkout repository'' (Uses ''actions/checkout@v3''),
       step ''Set up kubectl'' (Uses ''azure/setup-kubectl@v3''),
       (step ''Configure AWS credentials'' (Uses ''aws-actions/configure-aws-credentials@v2''))
         \<lparr>reads := [''secrets.AWS_ACCESS_KEY_ID'', ''secrets.AWS_SECRET_ACCESS_KEY'',
                    ''vars.AWS_REGION'']\<rparr>,
       (step ''Update kubeconfig''
          (Sh [''aws eks update-kubeconfig --name ${{ vars.EKS_CLUSTER_NAME }} --region ${{ vars.AWS_REGION }}'']))
         \<lparr>reads := [''vars.EKS_CLUSTER_NAME'', ''vars.AWS_REGION'']\<rparr>,
       step ''Set image names'' SetImageNames,
       step ''Deploy to Kubernetes'' (DeployToKubernetes dir),
       step ''Verify deployment'' (VerifyDeployment ns components),
       (step ''Run smoke tests'' (SmokeTests url_var))\<lparr>reads := [url_var]\<rparr>]"

definition deploy_staging :: JobSpec where
  "deploy_staging = \<lparr>job_id = ''deploy-staging'', needs = [''build''],
     job_if = Some (Or (And (Eq GithubRef (Lit ''refs/heads/develop''))
                            (Eq GithubEventName (Lit ''push'')))
                       (And (Eq GithubEventName (Lit ''workflow_dispatch''))
                            (Eq (EventInput ''environment'') (Lit ''staging'')))),
     matrix = [], fail_fast = None, environment = Some ''staging'',
     steps = deploy_steps ''k8s/staging'' ''image-processor-staging'' ''vars.STAGING_BASE_URL''\<rparr>"

definition deploy_production :: JobSpec where
  "deploy_production = \<lparr>job_id = ''deploy-production'', needs = [''build''],
     job_if = Some (Or (And (Eq GithubRef (Lit ''refs/heads/main''))
                            (Eq GithubEventName (Lit ''push'')))
                       (And (Eq GithubEventName (Lit ''workflow_dispatch''))
                            (Eq (EventInput ''environment'') (Lit ''production'')))),
     matrix = [], fail_fast = None, environment = Some ''production'',
     steps = deploy_steps ''k8s/production'' ''image-processor-production'' ''vars.PROD_BASE_URL''\<rparr>"

definition pipeline :: "JobSpec list" where
  "pipeline = [lint, security_scan, test, build, deploy_staging, deploy_production]"

section \<open>The outside world\<close>

text \<open>
  Everything a run depends on besides the workflow and the run context: whether a step's
  command or action exits with success, whether a deployment's rollout becomes ready, what
  the health endpoint answers, which version the metadata action reads from a tag name,
  and the timing of matrix instances (when each finishes, and how many steps an instance
  had finished when it was told to stop).
\<close>

datatype http_response = HttpStatus nat | NoResponse

record World =
  exit_ok :: "string \<Rightarrow> binding \<Rightarrow> string \<Rightarrow> bool"
  rollout_ready :: "string \<Rightarrow> string \<Rightarrow> bool"
  health :: "string \<Rightarrow> http_response"
  semver_of :: "string \<Rightarrow> string option"
  finish_rank :: "string \<Rightarrow> binding \<Rightarrow> nat"
  progress :: "string \<Rightarrow> binding \<Rightarrow> nat"

text \<open>
  \<^verbatim>\<open>curl -f URL\<close>, by the status of the last answer the server gives: exit code 22 for a
  status of 400 or above, 52 (no final reply) when the server only sends an interim
  status below 200, 0 for a status from 200 to 399, and a connection error (7) when
  there is no answer at all.
\<close>

fun curl_f :: "http_response \<Rightarrow> nat" where
  "curl_f (HttpStatus n) = (if 400 \<le> n then 22 else if n < 200 then 52 else 0)"
| "curl_f NoResponse = 7"

section \<open>Image tags\<close>

definition tag_char_ok :: "char \<Rightarrow> bool" where
  "tag_char_ok c =
     (let n = (of_char c :: nat)
      in (48 \<le> n \<and> n \<le> 57) \<or> (65 \<le> n \<and> n \<le> 90) \<or> (97 \<le> n \<and> n \<le> 122)
         \<or> c = CHR ''.'' \<or> c = CHR ''_'' \<or> c = CHR ''-'')"

text \<open>A run of characters that a tag may not contain becomes one \<^verbatim>\<open>-\<close>.\<close>

fun sanitize_tag :: "bool \<Rightarrow> string \<Rightarrow> string" where
  "sanitize_tag in_run [] = []"
| "sanitize_tag in_run (c # cs) =
     (if tag_char_ok c then c # sanitize_tag False cs
      else if in_run then sanitize_tag True cs
      else CHR ''-'' # sanitize_tag True cs)"

text \<open>
  The tags the metadata step derives from one rule: \<^verbatim>\<open>type=ref,event=branch\<close> gives the
  branch name on a branch ref, \<^verbatim>\<open>type=ref,event=pr\<close> gives \<^verbatim>\<open>pr-N\<close> on a pull request
  ref, \<^verbatim>\<open>type=semver\<close> gives the version on a tag ref, and \<^verbatim>\<open>type=sha\<close> gives the prefix
  followed by the commit SHA (its first seven characters in the short format).
\<close>

fun rule_tags :: "RunContext \<Rightarrow> World \<Rightarrow> tag_rule \<Rightarrow> string list" where
  "rule_tags ctx w RefBranch =
     (if take 11 (github_ref ctx) = ''refs/heads/''
      then [sanitize_tag False (drop 11 (github_ref ctx))] else [])"
| "rule_tags ctx w RefPr =
     (if take 10 (github_ref ctx) = ''refs/pull/''
      then [''pr-'' @ takeWhile (\<lambda>c. c \<noteq> CHR ''/'') (drop 10 (github_ref ctx))] else [])"
| "rule_tags ctx w (Semver pat) =
     (if take 10 (github_ref ctx) = ''refs/tags/''
      then (case semver_of w (drop 10 (github_ref ctx)) of None \<Rightarrow> [] | Some v \<Rightarrow> [v])
      else [])"
| "rule_tags ctx w (Sha fmt prefix) =
     [prefix @ (case fmt of Short \<Rightarrow> take 7 (github_sha ctx) | Long \<Rightarrow> github_sha ctx)]"

text \<open>\<^verbatim>\<open>images: ghcr.io/${{ github.repository }}/${{ matrix.component }}\<close>\<close>

definition image_name :: "RunContext \<Rightarrow> binding \<Rightarrow> string" where
  "image_name ctx b = ''ghcr.io/'' @ github_repository ctx @ ''/'' @ lookup_str b ''component''"

definition extract_metadata :: "RunContext \<Rightarrow> World \<Rightarrow> binding \<Rightarrow> tag_rule list \<Rightarrow> string list" where
  "extract_metadata ctx w b rules =
     map (\<lambda>t. image_name ctx b @ '':'' @ t) (concat (map (rule_tags ctx w) rules))"

text \<open>
  The step \<^verbatim>\<open>Set image names\<close>: \<^verbatim>\<open>COMMIT_SHA=$(echo ${{ github.sha }} | cut -c1-7)\<close>
  and three lines appended to the job's environment file.
\<close>

definition set_image_names :: "RunContext \<Rightarrow> (string \<times> string) list" where
  "set_image_names ctx =
     (let commit_sha = take 7 (github_sha ctx)
      in [(''FRONTEND_IMAGE'', ''ghcr.io/'' @ github_repository ctx @ ''/frontend:sha-'' @ commit_sha),
          (''BACKEND_IMAGE'', ''ghcr.io/'' @ github_repository ctx @ ''/backend:sha-'' @ commit_sha),
          (''ML_SERVICE_IMAGE'', ''ghcr.io/'' @ github_repository ctx @ ''/ml-service:sha-'' @ commit_sha)])"

text \<open>
  The step \<^verbatim>\<open>Deploy to Kubernetes\<close> runs, in the manifest directory, the command
  \<^verbatim>\<open>sed -i\<close> with the script \<^verbatim>\<open>s|image: .*frontend.*|image: ${{ env.FRONTEND_IMAGE }}|g\<close>
  on \<^verbatim>\<open>frontend-deployment.yaml\<close>, the same for backend and ml-service, and then
  \<^verbatim>\<open>kubectl apply -f .\<close> on the whole directory.

  On one line, the pattern \<^verbatim>\<open>image: .*WORD.*\<close> matches from the leftmost \<^verbatim>\<open>image: \<close>
  that has \<^verbatim>\<open>WORD\<close> somewhere after it up to the end of the line; the match is replaced
  by \<^verbatim>\<open>image: \<close> and the new reference. A line without a match stays as it is.
\<close>

fun contains_str :: "string \<Rightarrow> string \<Rightarrow> bool" where
  "contains_str word [] = (word = [])"
| "contains_str word (c # cs) = (take (length word) (c # cs) = word \<or> contains_str word cs)"

fun sed_image :: "string \<Rightarrow> string \<Rightarrow> string \<Rightarrow> string" where
  "sed_image word img [] = []"
| "sed_image word img (c # cs) =
     (if take 7 (c # cs) = ''image: '' \<and> contains_str word (drop 7 (c # cs))
      then ''image: '' @ img
      else c # sed_image word img cs)"

text \<open>The three files the step edits, each with its pattern word and its variable.\<close>

definition deploy_rewrites :: "(string \<times> string \<times> string) list" where
  "deploy_rewrites =
     [(''frontend-deployment.yaml'', ''frontend'', ''FRONTEND_IMAGE''),
      (''backend-deployment.yaml'', ''backend'', ''BACKEND_IMAGE''),
      (''ml-service-deployment.yaml'', ''ml-service'', ''ML_SERVICE_IMAGE'')]"

text \<open>\<^verbatim>\<open>sed -i\<close> fails on a file that does not exist, and the script stops there.\<close>

definition files_present :: "(string \<times> string list) list \<Rightarrow> bool" where
  "files_present files = list_all (\<lambda>(f, word, var). f \<in> set (map fst files)) deploy_rewrites"

text \<open>
  What is applied: every manifest of the directory, the three named files with their
  lines rewritten, any other file as it is.
\<close>

definition rewrite_manifests ::
  "(string \<times> string) list \<Rightarrow> (string \<times> string list) list \<Rightarrow> (string \<times> string list) list" where
  "rewrite_manifests env files =
     map (\<lambda>(name, lines).
            case find (\<lambda>(f, word, var). f = name) deploy_rewrites of
              None \<Rightarrow> (name, lines)
            | Some (f, word, var) \<Rightarrow> (name, map (sed_image word (lookup_str env var)) lines))
         files"

section \<open>Running the steps of one job instance\<close>

datatype effect =
    ConfigBound "string option" string
  | ImagePushed string string
  | ManifestApplied string "(string \<times> string list) list"

datatype step_status = StepOk | StepFailed | StepFailedIgnored | StepSkipped

type_synonym log_entry = "string \<times> step_status \<times> effect list"

record StepState =
  env_vars :: "(string \<times> string) list"
  meta_tags :: "string list"

definition step_succeeds ::
  "RunContext \<Rightarrow> World \<Rightarrow> JobSpec \<Rightarrow> binding \<Rightarrow> StepSpec \<Rightarrow> bool" where
  "step_succeeds ctx w j b s =
     (case act s of
        VerifyDeployment ns ds \<Rightarrow> list_all (rollout_ready w ns) ds
      | SmokeTests v \<Rightarrow> curl_f (health w v) = 0
      | DeployToKubernetes dir \<Rightarrow>
          files_present (workspace_manifests ctx dir) \<and> exit_ok w (job_id j) b (step_name s)
      | _ \<Rightarrow> exit_ok w (job_id j) b (step_name s))"

definition bound_config :: "JobSpec \<Rightarrow> StepSpec \<Rightarrow> effect list" where
  "bound_config j s = map (ConfigBound (environment j)) (reads s)"

definition step_effects :: "RunContext \<Rightarrow> JobSpec \<Rightarrow> StepState \<Rightarrow> StepSpec \<Rightarrow> effect list" where
  "step_effects ctx j st s =
     bound_config j s @
     (case act s of
        BuildPush \<Rightarrow> map (\<lambda>t. ImagePushed t (github_sha ctx)) (meta_tags st)
      | DeployToKubernetes dir \<Rightarrow>
          [ManifestApplied dir (rewrite_manifests (env_vars st) (workspace_manifests ctx dir))]
      | _ \<Rightarrow> [])"

definition step_update :: "RunContext \<Rightarrow> World \<Rightarrow> binding \<Rightarrow> StepState \<Rightarrow> StepSpec \<Rightarrow> StepState" where
  "step_update ctx w b st s =
     (case act s of
        ExtractMetadata rules \<Rightarrow> st\<lparr>meta_tags := extract_metadata ctx w b rules\<rparr>
      | SetImageNames \<Rightarrow> st\<lparr>env_vars := set_image_names ctx @ env_vars st\<rparr>
      | _ \<Rightarrow> st)"

text \<open>
  Steps run in order. \<open>ok\<close> says that no earlier step has failed; a step whose condition
  does not hold is skipped, a failing step with \<^verbatim>\<open>continue-on-error\<close> does not count as
  a failure, and any other failing step makes \<^verbatim>\<open>success()\<close> false for the steps after
  it.
\<close>

fun run_steps ::
  "RunContext \<Rightarrow> World \<Rightarrow> JobSpec \<Rightarrow> binding \<Rightarrow> bool \<Rightarrow> StepState \<Rightarrow> StepSpec list \<Rightarrow> log_entry list"
where
  "run_steps ctx w j b ok st [] = []"
| "run_steps ctx w j b ok st (s # ss) =
     (if if_holds ctx b ok (\<not> ok) (step_if s) then
        (if step_succeeds ctx w j b s
         then (step_name s, StepOk, step_effects ctx j st s)
                # run_steps ctx w j b ok (step_update ctx w b st s) ss
         else if continue_on_error s
         then (step_name s, StepFailedIgnored, bound_config j s) # run_steps ctx w j b ok st ss
         else (step_name s, StepFailed, bound_config j s) # run_steps ctx w j b False st ss)
      else (step_name s, StepSkipped, []) # run_steps ctx w j b ok st ss)"

section \<open>Job instances and the job graph\<close>

datatype job_state = Success | Failure | Skipped | Cancelled

record Instance =
  inst_binding :: binding
  inst_state :: job_state
  inst_log :: "log_entry list"

definition log_failed :: "log_entry list \<Rightarrow> bool" where
  "log_failed lg = list_ex (\<lambda>e. fst (snd e) = StepFailed) lg"

definition run_instance :: "RunContext \<Rightarrow> World \<Rightarrow> JobSpec \<Rightarrow> binding \<Rightarrow> Instance" where
  "run_instance ctx w j b =
     (let lg = run_steps ctx w j b True \<lparr>env_vars = [], meta_tags = []\<rparr> (steps j)
      in \<lparr>inst_binding = b, inst_state = (if log_failed lg then Failure else Success),
          inst_log = lg\<rparr>)"

definition skipped_instance :: "binding \<Rightarrow> Instance" where
  "skipped_instance b = \<lparr>inst_binding = b, inst_state = Skipped, inst_log = []\<rparr>"

text \<open>
  \<^verbatim>\<open>strategy.fail-fast\<close> is true unless the job sets it: when an instance of a matrix
  fails, the instances of that matrix that have not finished yet are cancelled.
\<close>

definition fail_fast_on :: "JobSpec \<Rightarrow> bool" where
  "fail_fast_on j = (case fail_fast j of None \<Rightarrow> True | Some f \<Rightarrow> f)"

definition cancelled_by_sibling :: "World \<Rightarrow> JobSpec \<Rightarrow> Instance list \<Rightarrow> Instance \<Rightarrow> bool" where
  "cancelled_by_sibling w j raw r =
     (fail_fast_on j \<and>
      list_ex (\<lambda>r'. inst_state r' = Failure \<and>
                     finish_rank w (job_id j) (inst_binding r') < finish_rank w (job_id j) (inst_binding r))
        raw)"

definition apply_fail_fast :: "World \<Rightarrow> JobSpec \<Rightarrow> Instance list \<Rightarrow> Instance list" where
  "apply_fail_fast w j raw =
     map (\<lambda>r. if cancelled_by_sibling w j raw r
              then r\<lparr>inst_state := Cancelled,
                     inst_log := take (progress w (job_id j) (inst_binding r)) (inst_log r)\<rparr>
              else r) raw"

text \<open>
  What a finished job leaves for its dependents: its instances, and the values that
  \<^verbatim>\<open>success()\<close> and \<^verbatim>\<open>failure()\<close> take in a job that needs it (both look at the whole
  chain of jobs behind it).
\<close>

record JobResult =
  jr_name :: string
  jr_instances :: "Instance list"
  jr_ok :: bool
  jr_failed :: bool

definition lookup_job :: "JobResult list \<Rightarrow> string \<Rightarrow> JobResult option" where
  "lookup_job done n = find (\<lambda>r. jr_name r = n) done"

definition upstream_ok :: "JobResult list \<Rightarrow> JobSpec \<Rightarrow> bool" where
  "upstream_ok done j =
     list_all (\<lambda>n. case lookup_job done n of None \<Rightarrow> False | Some r \<Rightarrow> jr_ok r) (needs j)"

definition upstream_failed :: "JobResult list \<Rightarrow> JobSpec \<Rightarrow> bool" where
  "upstream_failed done j =
     list_ex (\<lambda>n. case lookup_job done n of None \<Rightarrow> False | Some r \<Rightarrow> jr_failed r) (needs j)"

definition resolve :: "RunContext \<Rightarrow> World \<Rightarrow> JobResult list \<Rightarrow> JobSpec \<Rightarrow> JobResult" where
  "resolve ctx w done j =
     (let ok = upstream_ok done j; failed = upstream_failed done j; bs = expand (matrix j)
      in if if_holds ctx [] ok failed (job_if j)
         then (let insts = apply_fail_fast w j (map (run_instance ctx w j) bs)
               in \<lparr>jr_name = job_id j, jr_instances = insts,
                   jr_ok = (ok \<and> list_all (\<lambda>i. inst_state i = Success) insts),
                   jr_failed = (failed \<or> list_ex (\<lambda>i. inst_state i = Failure) insts)\<rparr>)
         else \<lparr>jr_name = job_id j, jr_instances = map skipped_instance bs,
               jr_ok = False, jr_failed = failed\<rparr>)"

text \<open>
  Scheduling: among the jobs still pending, the first in declaration order whose needs
  have all been resolved runs next. When jobs are pending and none is ready (a need
  that names no job, or a cycle), the workflow is rejected.
\<close>

datatype error = ConfigurationError "string list"

fun pick_ready :: "string list \<Rightarrow> JobSpec list \<Rightarrow> (JobSpec \<times> JobSpec list) option" where
  "pick_ready dn [] = None"
| "pick_ready dn (j # js) =
     (if list_all (\<lambda>n. n \<in> set dn) (needs j) then Some (j, js)
      else (case pick_ready dn js of None \<Rightarrow> None | Some (r, rest) \<Rightarrow> Some (r, j # rest)))"

lemma pick_ready_length: "pick_ready dn js = Some (r, rest) \<Longrightarrow> length js = Suc (length rest)"
  by (induction js arbitrary: r rest) (auto split: if_splits option.splits)

function schedule ::
  "RunContext \<Rightarrow> World \<Rightarrow> JobSpec list \<Rightarrow> JobResult list \<Rightarrow> error + JobResult list"
where
  "schedule ctx w [] done = Inr done"
| "schedule ctx w (j # js) done =
     (case pick_ready (map jr_name done) (j # js) of
        None \<Rightarrow> Inl (ConfigurationError (map job_id (j # js)))
      | Some (r, rest) \<Rightarrow> schedule ctx w rest (done @ [resolve ctx w done r]))"
  by pat_completeness auto
termination
  by (relation "measure (\<lambda>(ctx, w, pending, done). length pending)")
     (auto simp del: pick_ready.simps dest: pick_ready_length)

definition run :: "RunContext \<Rightarrow> World \<Rightarrow> JobSpec list \<Rightarrow> error + JobResult list" where
  "run ctx w jobs = schedule ctx w jobs []"

section \<open>What a run leaves behind\<close>

definition log_effects :: "log_entry list \<Rightarrow> effect list" where
  "log_effects lg = concat (map (\<lambda>e. snd (snd e)) lg)"

definition job_effects :: "JobResult \<Rightarrow> effect list" where
  "job_effects r = concat (map (\<lambda>i. log_effects (inst_log i)) (jr_instances r))"

definition run_effects :: "JobResult list \<Rightarrow> effect list" where
  "run_effects res = concat (map job_effects res)"

fun is_push :: "effect \<Rightarrow> bool" where
  "is_push (ImagePushed t c) = True"
| "is_push e = False"

fun is_apply :: "effect \<Rightarrow> bool" where
  "is_apply (ManifestApplied d m) = True"
| "is_apply e = False"

fun applies_dir :: "string \<Rightarrow> effect \<Rightarrow> bool" where
  "applies_dir d (ManifestApplied d' m) = (d = d')"
| "applies_dir d e = False"

text \<open>Which steps of an instance ran, in order: the step's name, and whether it was not skipped.\<close>

definition ran_steps :: "log_entry list \<Rightarrow> (string \<times> bool) list" where
  "ran_steps lg = map (\<lambda>e. (fst e, fst (snd e) \<noteq> StepSkipped)) lg"

text \<open>The image references a run pushes, and those of the manifests it applies.\<close>

fun pushed_ref :: "effect \<Rightarrow> string list" where
  "pushed_ref (ImagePushed t c) = [t]"
| "pushed_ref e = []"

fun image_of_line :: "string \<Rightarrow> string list" where
  "image_of_line [] = []"
| "image_of_line (c # cs) =
     (if take 7 (c # cs) = ''image: '' then [drop 7 (c # cs)] else image_of_line cs)"

fun applied_refs :: "effect \<Rightarrow> string list" where
  "applied_refs (ManifestApplied d m) = concat (map (\<lambda>(f, lines). concat (map image_of_line lines)) m)"
| "applied_refs e = []"

definition published_refs :: "JobResult list \<Rightarrow> string list" where
  "published_refs res = concat (map pushed_ref (run_effects res))"

definition deploy_refs :: "JobResult list \<Rightarrow> string list" where
  "deploy_refs res = concat (map applied_refs (run_effects res))"

definition job_instances :: "JobResult list \<Rightarrow> string \<Rightarrow> Instance list" where
  "job_instances res n = (case lookup_job res n of None \<Rightarrow> [] | Some r \<Rightarrow> jr_instances r)"

text \<open>The result list that scheduling the six jobs of the workflow produces.\<close>

definition pipeline_results :: "RunContext \<Rightarrow> World \<Rightarrow> JobResult list" where
  "pipeline_results ctx w =
     (let r1 = [resolve ctx w [] lint];
          r2 = r1 @ [resolve ctx w r1 security_scan];
          r3 = r2 @ [resolve ctx w r2 test];
          r4 = r3 @ [resolve ctx w r3 build];
          r5 = r4 @ [resolve ctx w r4 deploy_staging]
      in r5 @ [resolve ctx w r5 deploy_production])"

text \<open>A job's promotion rule is its \<^verbatim>\<open>if\<close> expression, read against the run context.\<close>

definition rule_matches :: "RunContext \<Rightarrow> JobSpec \<Rightarrow> bool" where
  "rule_matches ctx j = (case job_if j of None \<Rightarrow> True | Some e \<Rightarrow> eval_expr ctx [] True False e)"

section \<open>Sample runs\<close>

definition sample_sha :: string where
  "sample_sha = ''0123456789abcdef0123456789abcdef01234567''"

text \<open>A manifest directory with the three deployments, each naming a \<^verbatim>\<open>latest\<close> image.\<close>

definition sample_manifests :: "(string \<times> string list) list" where
  "sample_manifests =
     [(''frontend-deployment.yaml'',
         [''kind: Deployment'', ''        image: ghcr.io/acme/image-processor/frontend:latest'']),
      (''backend-deployment.yaml'',
         [''kind: Deployment'', ''        image: ghcr.io/acme/image-processor/backend:latest'']),
      (''ml-service-deployment.yaml'',
         [''kind: Deployment'', ''        image: ghcr.io/acme/image-processor/ml-service:latest''])]"

definition on_push :: "string \<Rightarrow> RunContext" where
  "on_push branch = \<lparr>github_event = Push, github_ref = ''refs/heads/'' @ branch,
     github_sha = sample_sha, github_repository = ''acme/image-processor'', github_inputs = [],
     workspace_manifests = (\<lambda>dir. sample_manifests)\<rparr>"

definition on_pull_request :: RunContext where
  "on_pull_request = \<lparr>github_event = PullRequest, github_ref = ''refs/pull/7/merge'',
     github_sha = sample_sha, github_repository = ''acme/image-processor'', github_inputs = [],
     workspace_manifests = (\<lambda>dir. sample_manifests)\<rparr>"

definition on_dispatch :: "string \<Rightarrow> string \<Rightarrow> RunContext" where
  "on_dispatch branch env = \<lparr>github_event = WorkflowDispatch, github_ref = ''refs/heads/'' @ branch,
     github_sha = sample_sha, github_repository = ''acme/image-processor'',
     github_inputs = [(''environment'', env)],
     workspace_manifests = (\<lambda>dir. sample_manifests)\<rparr>"

text \<open>A world in which every step succeeds and all instances finish together.\<close>

definition all_green :: World where
  "all_green = \<lparr>exit_ok = (\<lambda>j b s. True), rollout_ready = (\<lambda>ns d. True),
     health = (\<lambda>v. HttpStatus 200), semver_of = (\<lambda>t. None),
     finish_rank = (\<lambda>j b. 0), progress = (\<lambda>j b. 0)\<rparr>"

section \<open>Basic facts about the workflow\<close>

lemma job_ids [simp]:
  "job_id lint = ''lint''" "job_id security_scan = ''security-scan''" "job_id test = ''test''"
  "job_id build = ''build''" "job_id deploy_staging = ''deploy-staging''"
  "job_id deploy_production = ''deploy-production''"
  by (simp_all add: lint_def security_scan_def test_def build_def deploy_staging_def
      deploy_production_def)

lemma job_needs [simp]:
  "needs lint = []" "needs security_scan = [''lint'']" "needs test = [''lint'']"
  "needs build = [''test'', ''security-scan'']" "needs deploy_staging = [''build'']"
  "needs deploy_production = [''build'']"
  by (simp_all add: lint_def security_scan_def test_def build_def deploy_staging_def
      deploy_production_def)

lemma jr_name_resolve [simp]: "jr_name (resolve ctx w done j) = job_id j"
  by (simp add: resolve_def Let_def)

text \<open>The workflow is accepted and all six jobs are resolved, whatever the run.\<close>

lemma inr_result: "\<exists>res. f = Inr res \<and> P res \<Longrightarrow> f = Inr r \<Longrightarrow> P r"
  by auto

lemma run_pipeline: "run ctx w pipeline = Inr (pipeline_results ctx w)"
  by (simp add: run_def pipeline_def pipeline_results_def Let_def)

lemma str_eq_lits:
  "\<not> (str_eq x ''staging'' \<and> str_eq x ''production'')"
  "\<not> (str_eq x ''refs/heads/develop'' \<and> str_eq x ''refs/heads/main'')"
  by (auto simp add: str_eq_def lower_char_def)

lemma event_eq [simp]:
  "str_eq (event_name e) ''push'' = (e = Push)"
  "str_eq (event_name e) ''pull_request'' = (e = PullRequest)"
  "str_eq (event_name e) ''workflow_dispatch'' = (e = WorkflowDispatch)"
  by (cases e; simp add: str_eq_def lower_char_def)+

section \<open>Where effects come from\<close>

lemma bound_config_sub: "e \<in> set (bound_config j s) \<Longrightarrow> e \<in> set (step_effects ctx j st s)"
  by (simp add: step_effects_def)

lemma run_steps_effects:
  "e \<in> set (log_effects (run_steps ctx w j b ok st ss)) \<Longrightarrow>
   \<exists>s\<in>set ss. \<exists>st'. e \<in> set (step_effects ctx j st' s)"
proof (induction ss arbitrary: ok st)
  case Nil
  then show ?case by (simp add: log_effects_def)
next
  case (Cons s ss)
  then show ?case
    by (fastforce simp: log_effects_def split: if_splits dest: bound_config_sub)
qed

lemma log_effects_take: "set (log_effects (take n lg)) \<subseteq> set (log_effects lg)"
  by (auto simp: log_effects_def dest: in_set_takeD)

text \<open>A job has effects only if its condition held, and each effect is one of its steps'.\<close>

lemma resolve_effects:
  assumes "e \<in> set (job_effects (resolve ctx w done j))"
  shows "if_holds ctx [] (upstream_ok done j) (upstream_failed done j) (job_if j) \<and>
         (\<exists>s\<in>set (steps j). \<exists>st. e \<in> set (step_effects ctx j st s))"
proof (cases "if_holds ctx [] (upstream_ok done j) (upstream_failed done j) (job_if j)")
  case False
  with assms show ?thesis
    by (simp add: resolve_def Let_def job_effects_def skipped_instance_def log_effects_def)
next
  case True
  from assms True obtain b where "b \<in> set (expand (matrix j))"
    and "e \<in> set (log_effects (inst_log (run_instance ctx w j b)))"
    using log_effects_take
    by (fastforce simp: resolve_def Let_def job_effects_def apply_fail_fast_def split: if_splits)
  then show ?thesis using True
    by (auto simp: run_instance_def Let_def dest: run_steps_effects)
qed

lemma step_effects_apply:
  "ManifestApplied d m \<in> set (step_effects ctx j st s) \<Longrightarrow>
   act s = DeployToKubernetes d \<and>
   m = rewrite_manifests (env_vars st) (workspace_manifests ctx d)"
  by (auto simp: step_effects_def bound_config_def split: action.splits)

lemma step_effects_push:
  "ImagePushed t c \<in> set (step_effects ctx j st s) \<Longrightarrow> act s = BuildPush"
  by (auto simp: step_effects_def bound_config_def split: action.splits)

section \<open>The deploy jobs' conditions\<close>

lemma deploy_if_holds:
  "if_holds ctx [] ok failed (job_if deploy_staging) = (ok \<and> rule_matches ctx deploy_staging)"
  "if_holds ctx [] ok failed (job_if deploy_production) = (ok \<and> rule_matches ctx deploy_production)"
  by (simp_all add: if_holds_def rule_matches_def deploy_staging_def deploy_production_def)

lemma deploy_rules_exclusive:
  "\<not> (rule_matches ctx deploy_staging \<and> rule_matches ctx deploy_production)"
  using str_eq_lits[of "github_ref ctx"] str_eq_lits[of "lookup_str (github_inputs ctx) ''environment''"]
  by (auto simp: rule_matches_def deploy_staging_def deploy_production_def)

lemma step_acts [simp]: "act (step n a) = a" "act (step_when c n a) = a"
  by (simp_all add: step_def step_when_def)

lemma no_apply_steps:
  "DeployToKubernetes d \<notin> act ` set (steps lint)"
  "DeployToKubernetes d \<notin> act ` set (steps security_scan)"
  "DeployToKubernetes d \<notin> act ` set (steps test)"
  "DeployToKubernetes d \<notin> act ` set (steps build)"
  by (simp_all add: lint_def security_scan_def test_def build_def)

lemma deploy_apply_steps:
  "DeployToKubernetes d \<in> act ` set (deploy_steps dir ns u) \<Longrightarrow> d = dir"
  by (simp add: deploy_steps_def)

lemma deploy_job_steps [simp]:
  "steps deploy_staging = deploy_steps ''k8s/staging'' ''image-processor-staging'' ''vars.STAGING_BASE_URL''"
  "steps deploy_production = deploy_steps ''k8s/production'' ''image-processor-production'' ''vars.PROD_BASE_URL''"
  by (simp_all add: deploy_staging_def deploy_production_def)

lemma apply_steps:
  assumes "s \<in> set (steps j)" "act s = DeployToKubernetes d" "j \<in> set pipeline"
  shows "(j = deploy_staging \<and> d = ''k8s/staging'') \<or> (j = deploy_production \<and> d = ''k8s/production'')"
proof -
  from assms(1,2) have a: "DeployToKubernetes d \<in> act ` set (steps j)" by force
  from assms(3) consider "j = lint" | "j = security_scan" | "j = test" | "j = build"
    | "j = deploy_staging" | "j = deploy_production"
    by (auto simp: pipeline_def)
  then show ?thesis
  proof cases
    case 5
    with a show ?thesis
      using deploy_apply_steps[of d "''k8s/staging''"] by simp
  next
    case 6
    with a show ?thesis
      using deploy_apply_steps[of d "''k8s/production''"] by simp
  qed (use a no_apply_steps in auto)
qed

lemma run_effects_pipeline:
  "e \<in> set (run_effects (pipeline_results ctx w)) \<Longrightarrow>
   \<exists>j\<in>set pipeline. \<exists>done. e \<in> set (job_effects (resolve ctx w done j))"
  unfolding run_effects_def pipeline_results_def Let_def pipeline_def
  by (simp del: append_assoc) blast

lemma applies_dir_ex:
  assumes "list_ex (applies_dir d) es" shows "\<exists>m. ManifestApplied d m \<in> set es"
proof -
  from assms obtain e where e: "e \<in> set es" "applies_dir d e" by (auto simp: list_ex_iff)
  show ?thesis
  proof (cases e)
    case (ManifestApplied d' m)
    with e(2) have "d' = d" by simp
    with ManifestApplied e(1) show ?thesis by blast
  qed (use e(2) in simp_all)
qed

lemma deployed_needs_rule:
  assumes "list_ex (applies_dir d) (run_effects (pipeline_results ctx w))"
  shows "(d = ''k8s/staging'' \<and> rule_matches ctx deploy_staging) \<or>
         (d = ''k8s/production'' \<and> rule_matches ctx deploy_production)"
proof -
  from applies_dir_ex[OF assms] obtain m where
    "ManifestApplied d m \<in> set (run_effects (pipeline_results ctx w))" ..
  from run_effects_pipeline[OF this] obtain j dn where j: "j \<in> set pipeline"
    and e: "ManifestApplied d m \<in> set (job_effects (resolve ctx w dn j))" by blast
  from resolve_effects[OF e] obtain s st where
    h: "if_holds ctx [] (upstream_ok dn j) (upstream_failed dn j) (job_if j)"
    and s: "s \<in> set (steps j)" and "ManifestApplied d m \<in> set (step_effects ctx j st s)" by blast
  then have "act s = DeployToKubernetes d" by (auto dest: step_effects_apply)
  from apply_steps[OF s this j] h show ?thesis by (auto simp: deploy_if_holds)
qed

text \<open>
  Claim C9. The conditions of \<^verbatim>\<open>deploy-staging\<close> and \<^verbatim>\<open>deploy-production\<close> are
  mutually exclusive: no run context (event, ref, dispatch input) satisfies both, and no
  run of the workflow applies manifests to both environments.
\<close>

theorem one_environment_per_run:
  "\<not> (rule_matches ctx deploy_staging \<and> rule_matches ctx deploy_production) \<and>
   (\<exists>res. run ctx w pipeline = Inr res \<and>
      \<not> (list_ex (applies_dir ''k8s/staging'') (run_effects res) \<and>
         list_ex (applies_dir ''k8s/production'') (run_effects res)))"
proof -
  have "\<not> (list_ex (applies_dir ''k8s/staging'') (run_effects (pipeline_results ctx w)) \<and>
         list_ex (applies_dir ''k8s/production'') (run_effects (pipeline_results ctx w)))"
    using deploy_rules_exclusive[of ctx] deployed_needs_rule[of _ ctx w] by fastforce
  then show ?thesis using deploy_rules_exclusive[of ctx] by (simp add: run_pipeline)
qed

text \<open>A run dispatched by hand to production deploys production, and not staging.\<close>

lemma dispatch_deploys:
  "list_ex (applies_dir ''k8s/production'')
     (run_effects (pipeline_results (on_dispatch ''develop'' ''production'') all_green))"
  by code_simp

theorem one_environment_per_run_witness:
  "list_ex (applies_dir ''k8s/production'')
     (run_effects (pipeline_results (on_dispatch ''develop'' ''production'') all_green)) \<and>
   \<not> list_ex (applies_dir ''k8s/staging'')
     (run_effects (pipeline_results (on_dispatch ''develop'' ''production'') all_green))"
proof (rule conjI)
  show "list_ex (applies_dir ''k8s/production'')
     (run_effects (pipeline_results (on_dispatch ''develop'' ''production'') all_green))"
    by (rule dispatch_deploys)
  show "\<not> list_ex (applies_dir ''k8s/staging'')
     (run_effects (pipeline_results (on_dispatch ''develop'' ''production'') all_green))"
  proof
    assume b: "list_ex (applies_dir ''k8s/staging'')
     (run_effects (pipeline_results (on_dispatch ''develop'' ''production'') all_green))"
    from inr_result[OF
        one_environment_per_run[of "on_dispatch ''develop'' ''production''" all_green, THEN conjunct2]
        run_pipeline[of "on_dispatch ''develop'' ''production''" all_green]]
      conjI[OF b dispatch_deploys]
    show False by (rule notE)
  qed
qed

section \<open>What scheduling guarantees\<close>

text \<open>
  \<open>built\<close> describes the result lists the scheduler can produce: each job is resolved
  against the results that stood before it, and only once all its needs are among them.
\<close>

lemma pick_ready_props:
  "pick_ready dn js = Some (r, rest) \<Longrightarrow>
   r \<in> set js \<and> set js = insert r (set rest) \<and> (\<forall>n\<in>set (needs r). n \<in> set dn)"
proof (induction js arbitrary: r rest)
  case Nil
  then show ?case by simp
next
  case (Cons j js)
  show ?case
  proof (cases "list_all (\<lambda>n. n \<in> set dn) (needs j)")
    case True
    with Cons.prems show ?thesis by (auto simp: list_all_iff)
  next
    case False
    with Cons.prems obtain rest' where p: "pick_ready dn js = Some (r, rest')" and "rest = j # rest'"
      by (auto split: option.splits)
    with Cons.IH[OF p] show ?thesis by auto
  qed
qed

inductive built :: "RunContext \<Rightarrow> World \<Rightarrow> JobSpec set \<Rightarrow> JobResult list \<Rightarrow> bool"
  for ctx w J where
  built_nil: "built ctx w J []"
| built_snoc: "built ctx w J done \<Longrightarrow> j \<in> J \<Longrightarrow> \<forall>n\<in>set (needs j). n \<in> jr_name ` set done \<Longrightarrow>
     built ctx w J (done @ [resolve ctx w done j])"

lemma schedule_built:
  "schedule ctx w pending done = Inr res \<Longrightarrow> built ctx w J done \<Longrightarrow> set pending \<subseteq> J \<Longrightarrow>
   built ctx w J res \<and> jr_name ` set res = jr_name ` set done \<union> job_id ` set pending"
proof (induction ctx w pending "done" arbitrary: res rule: schedule.induct)
  case (1 ctx w dn)
  then show ?case by simp
next
  case (2 ctx w j js dn)
  from "2.prems"(1) obtain r rest where p: "pick_ready (map jr_name dn) (j # js) = Some (r, rest)"
    and s: "schedule ctx w rest (dn @ [resolve ctx w dn r]) = Inr res"
    by (auto simp del: pick_ready.simps split: option.splits)
  from pick_ready_props[OF p] have r: "r \<in> set (j # js)" "set (j # js) = insert r (set rest)"
    "\<forall>n\<in>set (needs r). n \<in> jr_name ` set dn" by auto
  with "2.prems" have b: "built ctx w J (dn @ [resolve ctx w dn r])"
    by (intro built_snoc) auto
  from r "2.prems" have "set rest \<subseteq> J" by auto
  from "2.IH"[OF p refl s b this] r(2) show ?case by auto
qed

lemma lookup_job_append:
  "lookup_job (xs @ ys) n = (case lookup_job xs n of None \<Rightarrow> lookup_job ys n | Some r \<Rightarrow> Some r)"
  by (induction xs) (auto simp: lookup_job_def)

lemma lookup_job_None: "lookup_job xs n = None \<longleftrightarrow> n \<notin> jr_name ` set xs"
  by (induction xs) (auto simp: lookup_job_def)

lemma lookup_job_name: "lookup_job xs n = Some r \<Longrightarrow> jr_name r = n"
  by (induction xs) (auto simp: lookup_job_def split: if_splits)

text \<open>Every result was computed from results that stood before it, which include all its needs.\<close>

lemma built_lookup:
  "built ctx w J res \<Longrightarrow> lookup_job res n = Some r \<Longrightarrow>
   \<exists>j\<in>J. \<exists>dn. job_id j = n \<and> r = resolve ctx w dn j \<and>
     (\<forall>m\<in>set (needs j). lookup_job dn m \<noteq> None \<and> lookup_job dn m = lookup_job res m)"
proof (induction arbitrary: n r rule: built.induct)
  case built_nil
  then show ?case by (simp add: lookup_job_def)
next
  case (built_snoc dn0 j)
  show ?case
  proof (cases "lookup_job dn0 n")
    case (Some r')
    with built_snoc.prems have "r' = r" by (simp add: lookup_job_append)
    with Some built_snoc.IH obtain j' dn where j': "j' \<in> J" "job_id j' = n" "r = resolve ctx w dn j'"
      "\<forall>m\<in>set (needs j'). lookup_job dn m \<noteq> None \<and> lookup_job dn m = lookup_job dn0 m" by blast
    have "lookup_job dn m \<noteq> None \<and> lookup_job dn m = lookup_job (dn0 @ [resolve ctx w dn0 j]) m"
      if "m \<in> set (needs j')" for m
    proof -
      from bspec[OF j'(4) that]
      have "lookup_job dn m \<noteq> None" "lookup_job dn m = lookup_job dn0 m" by blast+
      then show ?thesis by (cases "lookup_job dn0 m") (auto simp: lookup_job_append)
    qed
    with j'(1,2,3) show ?thesis by blast
  next
    case None
    with built_snoc.prems have "lookup_job [resolve ctx w dn0 j] n = Some r"
      by (simp add: lookup_job_append)
    then have r: "r = resolve ctx w dn0 j" "job_id j = n"
      by (auto simp: lookup_job_def split: if_splits)
    from built_snoc.hyps have "\<forall>m\<in>set (needs j). lookup_job dn0 m \<noteq> None \<and>
       lookup_job dn0 m = lookup_job (dn0 @ [resolve ctx w dn0 j]) m"
      by (auto simp: lookup_job_append lookup_job_None split: option.splits)
    with r built_snoc.hyps show ?thesis by blast
  qed
qed

lemma run_lookup:
  assumes "run ctx w jobs = Inr res" "distinct (map job_id jobs)" "j \<in> set jobs"
  shows "\<exists>dn. lookup_job res (job_id j) = Some (resolve ctx w dn j) \<and>
     (\<forall>m\<in>set (needs j). lookup_job dn m \<noteq> None \<and> lookup_job dn m = lookup_job res m)"
proof -
  from assms(1) have b: "built ctx w (set jobs) res" and n: "jr_name ` set res = job_id ` set jobs"
    using schedule_built[of ctx w jobs "[]" res "set jobs"] by (auto simp: run_def intro: built_nil)
  from n assms(3) obtain r where r: "lookup_job res (job_id j) = Some r"
    using lookup_job_None[of res "job_id j"] by (cases "lookup_job res (job_id j)") auto
  from built_lookup[OF b r] obtain j' dn where j': "j' \<in> set jobs" "job_id j' = job_id j"
    "r = resolve ctx w dn j'"
    "\<forall>m\<in>set (needs j'). lookup_job dn m \<noteq> None \<and> lookup_job dn m = lookup_job res m" by blast
  from j'(1,2) assms(2,3) have "j' = j" by (simp add: distinct_map inj_on_def)
  with r j' show ?thesis by blast
qed

section \<open>Failure propagation\<close>

text \<open>
  A job is unguarded when its condition calls no status function, so that the implicit
  \<^verbatim>\<open>success()\<close> applies to it. \<open>depends_on jobs a B\<close>: job \<open>B\<close> needs the job named
  \<open>a\<close>, directly or through a chain of needs.
\<close>

definition unguarded :: "JobSpec \<Rightarrow> bool" where
  "unguarded j = (case job_if j of None \<Rightarrow> True | Some e \<Rightarrow> \<not> has_status_fn e)"

inductive depends_on :: "JobSpec list \<Rightarrow> string \<Rightarrow> JobSpec \<Rightarrow> bool" for jobs a where
  needs_direct: "B \<in> set jobs \<Longrightarrow> a \<in> set (needs B) \<Longrightarrow> depends_on jobs a B"
| needs_chain: "B \<in> set jobs \<Longrightarrow> job_id C \<in> set (needs B) \<Longrightarrow> depends_on jobs a C \<Longrightarrow>
     depends_on jobs a B"

text \<open>
  A world in which the lint step of the backend instance fails, and the backend instance
  of a matrix finishes before its siblings, which have finished one step by then.
\<close>

definition backend_lint_fails :: World where
  "backend_lint_fails = all_green\<lparr>
     exit_ok := (\<lambda>j b s. \<not> (j = ''lint'' \<and> b = [(''component'', ''backend'')]
                              \<and> s = ''Lint backend'')),
     finish_rank := (\<lambda>j b. if b = [(''component'', ''backend'')] then 0 else 1),
     progress := (\<lambda>j b. 1)\<rparr>"

lemma resolve_not_ok: "\<not> upstream_ok dn j \<Longrightarrow> \<not> jr_ok (resolve ctx w dn j)"
  by (simp add: resolve_def Let_def)

lemma resolve_failed_not_ok:
  "list_ex (\<lambda>i. inst_state i = Failure) (jr_instances (resolve ctx w dn j)) \<Longrightarrow>
   \<not> jr_ok (resolve ctx w dn j)"
proof (cases "if_holds ctx [] (upstream_ok dn j) (upstream_failed dn j) (job_if j)")
  case True
  assume "list_ex (\<lambda>i. inst_state i = Failure) (jr_instances (resolve ctx w dn j))"
  with True obtain i where
    "i \<in> set (apply_fail_fast w j (map (run_instance ctx w j) (expand (matrix j))))"
    "inst_state i = Failure"
    by (auto simp: resolve_def Let_def list_ex_iff)
  then have "\<not> list_all (\<lambda>i. inst_state i = Success)
      (apply_fail_fast w j (map (run_instance ctx w j) (expand (matrix j))))"
    by (force simp: list_all_iff)
  with True show ?thesis by (simp add: resolve_def Let_def)
next
  case False
  then show ?thesis by (simp add: resolve_def Let_def)
qed

lemma resolve_skipped:
  "\<not> upstream_ok dn j \<Longrightarrow> unguarded j \<Longrightarrow>
   jr_instances (resolve ctx w dn j) = map skipped_instance (expand (matrix j))"
  by (auto simp: resolve_def Let_def unguarded_def if_holds_def split: option.splits)

lemma upstream_not_ok:
  "m \<in> set (needs j) \<Longrightarrow> lookup_job dn m = Some r \<Longrightarrow> \<not> jr_ok r \<Longrightarrow> \<not> upstream_ok dn j"
  by (force simp: upstream_ok_def list_all_iff)

lemma not_ok_downstream:
  assumes run: "run ctx w jobs = Inr res" and dist: "distinct (map job_id jobs)"
    and dep: "depends_on jobs a B" and a: "lookup_job res a = Some ra" "\<not> jr_ok ra"
  shows "\<exists>dn. lookup_job res (job_id B) = Some (resolve ctx w dn B) \<and> \<not> upstream_ok dn B"
  using dep
proof (induction rule: depends_on.induct)
  case (needs_direct B)
  from run_lookup[OF run dist needs_direct(1)] obtain dn where
    dn: "lookup_job res (job_id B) = Some (resolve ctx w dn B)"
    "\<forall>m\<in>set (needs B). lookup_job dn m \<noteq> None \<and> lookup_job dn m = lookup_job res m" by blast
  from bspec[OF dn(2) needs_direct(2)] a have "lookup_job dn a = Some ra" by simp
  from upstream_not_ok[OF needs_direct(2) this a(2)] dn(1) show ?case by blast
next
  case (needs_chain B C)
  from needs_chain.IH obtain dc where c: "lookup_job res (job_id C) = Some (resolve ctx w dc C)"
    "\<not> upstream_ok dc C" by blast
  from run_lookup[OF run dist needs_chain(1)] obtain dn where
    dn: "lookup_job res (job_id B) = Some (resolve ctx w dn B)"
    "\<forall>m\<in>set (needs B). lookup_job dn m \<noteq> None \<and> lookup_job dn m = lookup_job res m" by blast
  from bspec[OF dn(2) needs_chain(2)] c(1)
  have "lookup_job dn (job_id C) = Some (resolve ctx w dc C)" by simp
  from upstream_not_ok[OF needs_chain(2) this resolve_not_ok[OF c(2)]] dn(1) show ?case by blast
qed

text \<open>
  Claim C1. In any accepted workflow with distinct job names: when the job named \<open>a\<close> has
  an instance that resolved to failure, every job \<open>B\<close> that needs \<open>a\<close> directly or
  transitively, and whose condition does not call a status function, resolves to skipped
  in all its instances, none of which runs a step.
\<close>

theorem failure_propagates:
  assumes "run ctx w jobs = Inr res" and "distinct (map job_id jobs)"
    and "depends_on jobs a B"
    and "lookup_job res a = Some ra" and "list_ex (\<lambda>i. inst_state i = Failure) (jr_instances ra)"
    and "unguarded B"
  shows "\<exists>rb. lookup_job res (job_id B) = Some rb \<and>
           jr_instances rb = map skipped_instance (expand (matrix B)) \<and>
           list_all (\<lambda>i. inst_state i = Skipped \<and> inst_log i = []) (jr_instances rb)"
proof -
  from assms(1) have "built ctx w (set jobs) res"
    using schedule_built[of ctx w jobs "[]" res "set jobs"] by (auto simp: run_def intro: built_nil)
  from built_lookup[OF this assms(4)] obtain j dn where "ra = resolve ctx w dn j" by blast
  with assms(5) have "\<not> jr_ok ra" by (simp add: resolve_failed_not_ok)
  from not_ok_downstream[OF assms(1,2,3,4) this] obtain dn where
    "lookup_job res (job_id B) = Some (resolve ctx w dn B)" "\<not> upstream_ok dn B" by blast
  with resolve_skipped[OF this(2) assms(6)] show ?thesis
    by (simp add: list_all_iff skipped_instance_def)
qed

lemma lint_failed: "list_ex (\<lambda>i. inst_state i = Failure)
     (jr_instances (resolve (on_push ''develop'') backend_lint_fails [] lint))"
  by code_simp

theorem failure_propagates_witness:
  "\<exists>rb. lookup_job (pipeline_results (on_push ''develop'') backend_lint_fails) ''deploy-staging'' = Some rb \<and>
      jr_instances rb = [skipped_instance []] \<and>
      list_all (\<lambda>i. inst_state i = Skipped \<and> inst_log i = []) (jr_instances rb)"
proof -
  have run: "run (on_push ''develop'') backend_lint_fails pipeline
      = Inr (pipeline_results (on_push ''develop'') backend_lint_fails)"
    by (rule run_pipeline)
  have dist: "distinct (map job_id pipeline)" by (simp add: pipeline_def)
  have "depends_on pipeline ''lint'' test"
    by (rule needs_direct) (simp_all add: pipeline_def)
  then have "depends_on pipeline ''lint'' build"
    by (rule needs_chain[rotated 2]) (simp_all add: pipeline_def)
  then have dep: "depends_on pipeline ''lint'' deploy_staging"
    by (rule needs_chain[rotated 2]) (simp_all add: pipeline_def)
  have a: "lookup_job (pipeline_results (on_push ''develop'') backend_lint_fails) ''lint''
      = Some (resolve (on_push ''develop'') backend_lint_fails [] lint)"
    by (simp add: pipeline_results_def Let_def lookup_job_def)
  have u: "unguarded deploy_staging" by (simp add: unguarded_def deploy_staging_def)
  from failure_propagates[OF run dist dep a lint_failed u] show ?thesis
    by (simp add: deploy_staging_def)
qed

section \<open>Jobs whose condition does not hold\<close>

lemma pipeline_distinct: "distinct (map job_id pipeline)"
  by (simp add: pipeline_def)

lemma resolve_not_holds:
  "\<not> if_holds ctx [] (upstream_ok dn j) (upstream_failed dn j) (job_if j) \<Longrightarrow>
   jr_instances (resolve ctx w dn j) = map skipped_instance (expand (matrix j))"
  by (simp add: resolve_def Let_def)

lemma job_effects_skipped:
  "jr_instances r = map skipped_instance bs \<Longrightarrow> job_effects r = []"
  by (simp add: job_effects_def skipped_instance_def log_effects_def)

text \<open>
  Claim C4. When the run context does not match the promotion rule of a deploy job (its
  \<^verbatim>\<open>if\<close> expression), the job resolves to skipped without running a step: its only
  instance has an empty log and the job has no effect at all (no manifest applied, no
  secret or variable of the environment bound).
\<close>

theorem deploy_rule_mismatch_skipped:
  assumes "j = deploy_staging \<or> j = deploy_production" and "\<not> rule_matches ctx j"
  shows "\<exists>res r. run ctx w pipeline = Inr res \<and> lookup_job res (job_id j) = Some r \<and>
           jr_instances r = [\<lparr>inst_binding = [], inst_state = Skipped, inst_log = []\<rparr>] \<and>
           job_effects r = []"
proof -
  from assms(1) have j: "j \<in> set pipeline" by (auto simp: pipeline_def)
  from run_lookup[OF run_pipeline pipeline_distinct j] obtain dn where
    dn: "lookup_job (pipeline_results ctx w) (job_id j) = Some (resolve ctx w dn j)" by blast
  from assms have "\<not> if_holds ctx [] (upstream_ok dn j) (upstream_failed dn j) (job_if j)"
    by (auto simp: deploy_if_holds)
  from resolve_not_holds[OF this]
  have i: "jr_instances (resolve ctx w dn j) = map skipped_instance (expand (matrix j))" .
  from assms(1) have "expand (matrix j) = [[]]"
    by (auto simp: deploy_staging_def deploy_production_def)
  with i have "jr_instances (resolve ctx w dn j) = [\<lparr>inst_binding = [], inst_state = Skipped, inst_log = []\<rparr>]"
    by (simp add: skipped_instance_def)
  with dn job_effects_skipped[OF i] show ?thesis by (simp add: run_pipeline)
qed

theorem deploy_rule_mismatch_skipped_witness:
  "\<not> rule_matches (on_push ''feature/x'') deploy_staging \<and>
   (\<exists>res r. run (on_push ''feature/x'') all_green pipeline = Inr res \<and>
      lookup_job res ''deploy-staging'' = Some r \<and>
      jr_instances r = [\<lparr>inst_binding = [], inst_state = Skipped, inst_log = []\<rparr>] \<and>
      job_effects r = [])"
proof -
  have n: "\<not> rule_matches (on_push ''feature/x'') deploy_staging" by code_simp
  from deploy_rule_mismatch_skipped[of deploy_staging "on_push ''feature/x''" all_green] n
  show ?thesis by simp
qed

section \<open>Pull requests\<close>

lemma build_if_holds:
  "if_holds ctx [] ok failed (job_if build) =
     (ok \<and> (github_event ctx = Push \<or> github_event ctx = WorkflowDispatch))"
  by (simp add: if_holds_def build_def)

lemma no_push_steps:
  "BuildPush \<notin> act ` set (steps lint)"
  "BuildPush \<notin> act ` set (steps security_scan)"
  "BuildPush \<notin> act ` set (steps test)"
  "BuildPush \<notin> act ` set (deploy_steps dir ns u)"
  by (simp_all add: lint_def security_scan_def test_def deploy_steps_def)

lemma push_steps:
  assumes "s \<in> set (steps j)" "act s = BuildPush" "j \<in> set pipeline"
  shows "j = build"
proof -
  from assms(1,2) have a: "BuildPush \<in> act ` set (steps j)" by force
  from assms(3) consider "j = lint" | "j = security_scan" | "j = test" | "j = build"
    | "j = deploy_staging" | "j = deploy_production"
    by (auto simp: pipeline_def)
  then show ?thesis using a no_push_steps by cases auto
qed

lemma pushed_needs_event:
  assumes "list_ex is_push (run_effects (pipeline_results ctx w))"
  shows "github_event ctx = Push \<or> github_event ctx = WorkflowDispatch"
proof -
  from assms obtain e where e: "e \<in> set (run_effects (pipeline_results ctx w))" "is_push e"
    by (auto simp: list_ex_iff)
  from e(2) obtain t c where "e = ImagePushed t c" by (cases e) auto
  with run_effects_pipeline[OF e(1)] obtain j dn where j: "j \<in> set pipeline"
    and "ImagePushed t c \<in> set (job_effects (resolve ctx w dn j))" by blast
  from resolve_effects[OF this(2)] obtain s st where
    h: "if_holds ctx [] (upstream_ok dn j) (upstream_failed dn j) (job_if j)"
    and s: "s \<in> set (steps j)" and "ImagePushed t c \<in> set (step_effects ctx j st s)" by blast
  then have "act s = BuildPush" by (auto dest: step_effects_push)
  from push_steps[OF s this j] h show ?thesis by (simp add: build_if_holds)
qed

lemma deploy_rule_events:
  "rule_matches ctx deploy_staging \<Longrightarrow> github_event ctx = Push \<or> github_event ctx = WorkflowDispatch"
  "rule_matches ctx deploy_production \<Longrightarrow> github_event ctx = Push \<or> github_event ctx = WorkflowDispatch"
  by (auto simp: rule_matches_def deploy_staging_def deploy_production_def)

lemma applied_needs_event:
  assumes "list_ex is_apply (run_effects (pipeline_results ctx w))"
  shows "github_event ctx = Push \<or> github_event ctx = WorkflowDispatch"
proof -
  from assms obtain e where e: "e \<in> set (run_effects (pipeline_results ctx w))" "is_apply e"
    by (auto simp: list_ex_iff)
  from e(2) obtain d m where "e = ManifestApplied d m" by (cases e) auto
  with e(1) have "list_ex (applies_dir d) (run_effects (pipeline_results ctx w))"
    by (force simp: list_ex_iff)
  from deployed_needs_rule[OF this] show ?thesis using deploy_rule_events by blast
qed

lemma never_ran_skipped:
  "list_all (\<lambda>i. inst_state i = Skipped \<and> inst_log i = []) (map skipped_instance bs)"
  by (simp add: list_all_iff skipped_instance_def)

lemma job_not_held:
  assumes "j \<in> set pipeline"
    and "\<And>ok failed. \<not> if_holds ctx [] ok failed (job_if j)"
  shows "job_instances (pipeline_results ctx w) (job_id j) = map skipped_instance (expand (matrix j))"
proof -
  from run_lookup[OF run_pipeline pipeline_distinct assms(1)] obtain dn where
    "lookup_job (pipeline_results ctx w) (job_id j) = Some (resolve ctx w dn j)" by blast
  with resolve_not_holds[OF assms(2)[of "upstream_ok dn j" "upstream_failed dn j"], of w]
  show ?thesis by (simp add: job_instances_def)
qed

text \<open>
  Claim C10. In a run triggered by a pull request, \<^verbatim>\<open>build\<close> (three instances) and both
  deploy jobs resolve to skipped without running a step, and the run as a whole pushes no
  image and applies no manifest.
\<close>

theorem pull_request_never_builds_or_deploys:
  assumes "github_event ctx = PullRequest"
  shows "\<exists>res. run ctx w pipeline = Inr res \<and>
           length (job_instances res ''build'') = 3 \<and>
           length (job_instances res ''deploy-staging'') = 1 \<and>
           length (job_instances res ''deploy-production'') = 1 \<and>
           list_all (\<lambda>i. inst_state i = Skipped \<and> inst_log i = [])
             (job_instances res ''build'' @ job_instances res ''deploy-staging'' @
              job_instances res ''deploy-production'') \<and>
           \<not> list_ex is_push (run_effects res) \<and> \<not> list_ex is_apply (run_effects res)"
proof -
  let ?res = "pipeline_results ctx w"
  have b: "job_instances ?res ''build'' = map skipped_instance (expand (matrix build))"
    using job_not_held[of build ctx w] assms by (simp add: build_if_holds pipeline_def)
  have s: "job_instances ?res ''deploy-staging'' = map skipped_instance (expand (matrix deploy_staging))"
    using job_not_held[of deploy_staging ctx w] deploy_rule_events(1)[of ctx] assms
    by (auto simp: deploy_if_holds pipeline_def)
  have p: "job_instances ?res ''deploy-production'' = map skipped_instance (expand (matrix deploy_production))"
    using job_not_held[of deploy_production ctx w] deploy_rule_events(2)[of ctx] assms
    by (auto simp: deploy_if_holds pipeline_def)
  have l: "length (expand (matrix build)) = 3" "length (expand (matrix deploy_staging)) = 1"
    "length (expand (matrix deploy_production)) = 1"
    by (simp_all add: build_def deploy_staging_def deploy_production_def components_def)
  have e: "\<not> list_ex is_push (run_effects ?res)" "\<not> list_ex is_apply (run_effects ?res)"
    using pushed_needs_event[of ctx w] applied_needs_event[of ctx w] assms by auto
  from b s p l e never_ran_skipped show ?thesis
    by (simp add: run_pipeline)
qed

theorem pull_request_never_builds_or_deploys_witness:
  "\<exists>res. run on_pull_request all_green pipeline = Inr res \<and>
           length (job_instances res ''build'') = 3 \<and>
           length (job_instances res ''deploy-staging'') = 1 \<and>
           length (job_instances res ''deploy-production'') = 1 \<and>
           list_all (\<lambda>i. inst_state i = Skipped \<and> inst_log i = [])
             (job_instances res ''build'' @ job_instances res ''deploy-staging'' @
              job_instances res ''deploy-production'') \<and>
           \<not> list_ex is_push (run_effects res) \<and> \<not> list_ex is_apply (run_effects res)"
  using pull_request_never_builds_or_deploys[of on_pull_request all_green]
  by (simp add: on_pull_request_def)

section \<open>Matrix instances\<close>

lemma apply_fail_fast_bindings: "map inst_binding (apply_fail_fast w j raw) = map inst_binding raw"
  by (simp add: apply_fail_fast_def)

lemma resolve_bindings: "map inst_binding (jr_instances (resolve ctx w dn j)) = expand (matrix j)"
  by (simp add: resolve_def Let_def apply_fail_fast_bindings skipped_instance_def
      run_instance_def o_def)

lemma expand_one_axis: "expand [(a, vs)] = map (\<lambda>v. [(a, v)]) vs"
  by (induction vs) simp_all

lemma distinct_one_axis: "distinct vs \<Longrightarrow> distinct (map (\<lambda>v. [(a, v)]) vs)"
  by (simp add: distinct_map inj_on_def)

lemma pipeline_bindings:
  assumes "j \<in> set pipeline"
  shows "map inst_binding (job_instances (pipeline_results ctx w) (job_id j)) = expand (matrix j)"
proof -
  from run_lookup[OF run_pipeline pipeline_distinct assms] obtain dn where
    "lookup_job (pipeline_results ctx w) (job_id j) = Some (resolve ctx w dn j)" by blast
  then show ?thesis by (simp add: job_instances_def resolve_bindings)
qed

lemma job_matrices:
  "expand (matrix lint) = map (\<lambda>v. [(''component'', v)]) [''frontend'', ''backend'', ''ml-service'']"
  "expand (matrix build) = map (\<lambda>v. [(''component'', v)]) [''frontend'', ''backend'', ''ml-service'']"
  "expand (matrix security_scan) = [[]]" "expand (matrix test) = [[]]"
  "expand (matrix deploy_staging) = [[]]" "expand (matrix deploy_production) = [[]]"
  by (simp_all add: lint_def build_def security_scan_def test_def deploy_staging_def
      deploy_production_def components_def)

lemma pipeline_members:
  "lint \<in> set pipeline" "security_scan \<in> set pipeline" "test \<in> set pipeline"
  "build \<in> set pipeline" "deploy_staging \<in> set pipeline" "deploy_production \<in> set pipeline"
  by (simp_all add: pipeline_def)

section \<open>Rollout and smoke tests\<close>












text \<open>
  Three worlds: the health endpoint is down; it only sends an interim status; the
  backend rollout never becomes ready.
\<close>

definition health_down :: World where
  "health_down = all_green\<lparr>health := (\<lambda>v. HttpStatus 503)\<rparr>"







section \<open>Siblings of a matrix\<close>

lemma run_instance_state:
  "inst_state (run_instance ctx w j b) = Success \<or> inst_state (run_instance ctx w j b) = Failure"
  by (simp add: run_instance_def Let_def)

lemma run_instance_binding [simp]: "inst_binding (run_instance ctx w j b) = b"
  by (simp add: run_instance_def Let_def)

lemma step_succeeds_cong:
  assumes "exit_ok w' (job_id j) b = exit_ok w (job_id j) b" "rollout_ready w' = rollout_ready w"
    "health w' = health w"
  shows "step_succeeds ctx w' j b s = step_succeeds ctx w j b s"
  using assms by (simp add: step_succeeds_def split: action.splits)

lemma step_update_cong:
  "semver_of w' = semver_of w \<Longrightarrow> step_update ctx w' b st s = step_update ctx w b st s"
proof -
  assume a: "semver_of w' = semver_of w"
  have "rule_tags ctx w' r = rule_tags ctx w r" for r
    by (cases r) (simp_all add: a)
  then have "rule_tags ctx w' = rule_tags ctx w" by (rule ext)
  then have "extract_metadata ctx w' b rules = extract_metadata ctx w b rules" for rules
    by (simp add: extract_metadata_def)
  then show ?thesis by (simp add: step_update_def split: action.splits)
qed

lemma run_steps_cong:
  assumes "exit_ok w' (job_id j) b = exit_ok w (job_id j) b" "rollout_ready w' = rollout_ready w"
    "health w' = health w" "semver_of w' = semver_of w"
  shows "run_steps ctx w' j b ok st ss = run_steps ctx w j b ok st ss"
  by (induction ss arbitrary: ok st)
     (simp_all add: step_succeeds_cong[OF assms(1,2,3)] step_update_cong[OF assms(4)])

lemma fail_fast_default: "fail_fast_on lint" "fail_fast_on build"
  by (simp_all add: fail_fast_on_def lint_def build_def)

text \<open>
  Claim C2, as the workflow has it. \<^verbatim>\<open>lint\<close> and \<^verbatim>\<open>build\<close> do not set
  \<^verbatim>\<open>strategy.fail-fast\<close>, so the default applies. For a matrix job that runs: an instance
  is cancelled exactly when a sibling whose own steps fail finishes before it; an instance
  that is not cancelled ends as its own steps decide; an instance is a failure only when
  its own steps fail. What an instance's own steps give depends on the outcomes of its
  own steps only, not on those of its siblings.
\<close>

theorem matrix_fail_fast:
  assumes runs: "if_holds ctx [] (upstream_ok dn j) (upstream_failed dn j) (job_if j)"
  shows "fail_fast_on lint \<and> fail_fast_on build \<and>
    list_all (\<lambda>i.
        (inst_state i = Cancelled) =
           cancelled_by_sibling w j (map (run_instance ctx w j) (expand (matrix j)))
             (run_instance ctx w j (inst_binding i)) \<and>
        (inst_state i \<noteq> Cancelled \<longrightarrow> i = run_instance ctx w j (inst_binding i)) \<and>
        (inst_state i = Failure \<longrightarrow> inst_state (run_instance ctx w j (inst_binding i)) = Failure))
      (jr_instances (resolve ctx w dn j)) \<and>
    (exit_ok w' (job_id j) b = exit_ok w (job_id j) b \<and> rollout_ready w' = rollout_ready w \<and>
     health w' = health w \<and> semver_of w' = semver_of w \<longrightarrow>
       run_instance ctx w' j b = run_instance ctx w j b)"
proof -
  let ?raw = "map (run_instance ctx w j) (expand (matrix j))"
  have i: "jr_instances (resolve ctx w dn j) = apply_fail_fast w j ?raw"
    using runs by (simp add: resolve_def Let_def)
  have "(inst_state i = Cancelled) = cancelled_by_sibling w j ?raw (run_instance ctx w j (inst_binding i)) \<and>
        (inst_state i \<noteq> Cancelled \<longrightarrow> i = run_instance ctx w j (inst_binding i)) \<and>
        (inst_state i = Failure \<longrightarrow> inst_state (run_instance ctx w j (inst_binding i)) = Failure)"
    if "i \<in> set (apply_fail_fast w j ?raw)" for i
  proof -
    from that obtain b where b: "b \<in> set (expand (matrix j))"
      and i: "i = (if cancelled_by_sibling w j ?raw (run_instance ctx w j b)
               then (run_instance ctx w j b)\<lparr>inst_state := Cancelled,
                      inst_log := take (progress w (job_id j) b) (inst_log (run_instance ctx w j b))\<rparr>
               else run_instance ctx w j b)"
      by (auto simp: apply_fail_fast_def)
    show ?thesis
      using run_instance_state[of ctx w j b]
      by (cases "cancelled_by_sibling w j ?raw (run_instance ctx w j b)") (auto simp: i)
  qed
  then have l: "list_all (\<lambda>i.
        (inst_state i = Cancelled) = cancelled_by_sibling w j ?raw (run_instance ctx w j (inst_binding i)) \<and>
        (inst_state i \<noteq> Cancelled \<longrightarrow> i = run_instance ctx w j (inst_binding i)) \<and>
        (inst_state i = Failure \<longrightarrow> inst_state (run_instance ctx w j (inst_binding i)) = Failure))
      (jr_instances (resolve ctx w dn j))"
    unfolding i list_all_iff by blast
  have c: "run_instance ctx w' j b = run_instance ctx w j b"
    if "exit_ok w' (job_id j) b = exit_ok w (job_id j) b" "rollout_ready w' = rollout_ready w"
      "health w' = health w" "semver_of w' = semver_of w"
    using run_steps_cong[OF that] by (simp add: run_instance_def)
  from l c fail_fast_default show ?thesis by blast
qed

text \<open>
  With every step green the three lint instances succeed. When the backend instance's
  lint step fails first, the frontend instance, whose own steps all succeed, ends
  cancelled, not success.
\<close>

theorem matrix_siblings_counterexample:
  "map inst_state (job_instances (pipeline_results (on_push ''develop'') all_green) ''lint'')
     = [Success, Success, Success] \<and>
   inst_state (run_instance (on_push ''develop'') backend_lint_fails lint [(''component'', ''frontend'')])
     = Success \<and>
   map inst_state (job_instances (pipeline_results (on_push ''develop'') backend_lint_fails) ''lint'')
     = [Cancelled, Failure, Cancelled]"
  by code_simp

theorem matrix_fail_fast_witness:
  "list_all (\<lambda>i.
        (inst_state i = Cancelled) =
           cancelled_by_sibling backend_lint_fails lint
             (map (run_instance (on_push ''develop'') backend_lint_fails lint) (expand (matrix lint)))
             (run_instance (on_push ''develop'') backend_lint_fails lint (inst_binding i)) \<and>
        (inst_state i \<noteq> Cancelled \<longrightarrow>
           i = run_instance (on_push ''develop'') backend_lint_fails lint (inst_binding i)) \<and>
        (inst_state i = Failure \<longrightarrow>
           inst_state (run_instance (on_push ''develop'') backend_lint_fails lint (inst_binding i)) = Failure))
      (jr_instances (resolve (on_push ''develop'') backend_lint_fails [] lint)) \<and>
   run_instance (on_push ''develop'') all_green lint [(''component'', ''frontend'')]
     = run_instance (on_push ''develop'') backend_lint_fails lint [(''component'', ''frontend'')]"
proof -
  have h: "if_holds (on_push ''develop'') [] (upstream_ok [] lint) (upstream_failed [] lint) (job_if lint)"
    by (simp add: if_holds_def upstream_ok_def lint_def)
  have e: "exit_ok all_green (job_id lint) [(''component'', ''frontend'')]
      = exit_ok backend_lint_fails (job_id lint) [(''component'', ''frontend'')] \<and>
    rollout_ready all_green = rollout_ready backend_lint_fails \<and>
    health all_green = health backend_lint_fails \<and>
    semver_of all_green = semver_of backend_lint_fails"
    by (simp add: all_green_def backend_lint_fails_def fun_eq_iff)
  note t = matrix_fail_fast[OF h, of backend_lint_fails all_green "[(''component'', ''frontend'')]"]
  from t[THEN conjunct2, THEN conjunct2, THEN conjunct1]
    t[THEN conjunct2, THEN conjunct2, THEN conjunct2, THEN mp, OF e]
  show ?thesis by (rule conjI)
qed

section \<open>Bindings in the step environment\<close>

lemma log_failed_Cons: "log_failed (e # es) = (fst (snd e) = StepFailed \<or> log_failed es)"
  by (simp add: log_failed_def)

text \<open>In an instance without a failed step, a step runs exactly when its condition holds
  under the instance's binding.\<close>

lemma run_steps_ran:
  "\<not> log_failed (run_steps ctx w j b True st ss) \<Longrightarrow>
   ran_steps (run_steps ctx w j b True st ss)
     = map (\<lambda>s. (step_name s, if_holds ctx b True False (step_if s))) ss"
proof (induction ss arbitrary: st)
  case Nil
  then show ?case by (simp add: ran_steps_def)
next
  case (Cons s ss)
  show ?case
  proof (cases "if_holds ctx b True False (step_if s)")
    case False
    with Cons show ?thesis by (simp add: log_failed_Cons ran_steps_def)
  next
    case True
    with Cons show ?thesis
      by (cases "step_succeeds ctx w j b s"; cases "continue_on_error s")
         (simp_all add: log_failed_Cons log_failed_def ran_steps_def)
  qed
qed

lemma apply_fail_fast_success:
  "i \<in> set (apply_fail_fast w j raw) \<Longrightarrow> inst_state i = Success \<Longrightarrow> i \<in> set raw"
  unfolding apply_fail_fast_def set_map by (auto split: if_splits)

lemma resolve_own:
  assumes "i \<in> set (jr_instances (resolve ctx w dn j))" "inst_state i = Success"
  shows "i = run_instance ctx w j (inst_binding i)"
proof (cases "if_holds ctx [] (upstream_ok dn j) (upstream_failed dn j) (job_if j)")
  case False
  with assms show ?thesis by (auto simp: resolve_def Let_def skipped_instance_def)
next
  case True
  then have "jr_instances (resolve ctx w dn j)
      = apply_fail_fast w j (map (run_instance ctx w j) (expand (matrix j)))"
    by (simp add: resolve_def Let_def)
  with assms(1) have "i \<in> set (apply_fail_fast w j (map (run_instance ctx w j) (expand (matrix j))))"
    by simp
  from apply_fail_fast_success[OF this assms(2)] obtain b where "i = run_instance ctx w j b"
    by auto
  then show ?thesis by (simp add: run_instance_def Let_def)
qed

lemma run_instance_ran:
  assumes "inst_state (run_instance ctx w j b) = Success"
  shows "ran_steps (inst_log (run_instance ctx w j b))
     = map (\<lambda>s. (step_name s, if_holds ctx b True False (step_if s))) (steps j)"
proof -
  from assms have "\<not> log_failed (run_steps ctx w j b True \<lparr>env_vars = [], meta_tags = []\<rparr> (steps j))"
    by (simp add: run_instance_def Let_def split: if_splits)
  from run_steps_ran[OF this] show ?thesis by (simp add: run_instance_def Let_def)
qed

lemma build_pushes:
  assumes "inst_state (run_instance ctx w build b) = Success"
  shows "filter is_push (log_effects (inst_log (run_instance ctx w build b)))
     = map (\<lambda>t. ImagePushed t (github_sha ctx)) (extract_metadata ctx w b [RefBranch, RefPr, Semver ''{{version}}'', Sha Long []])"
proof -
  from assms have n: "\<not> log_failed (run_steps ctx w build b True \<lparr>env_vars = [], meta_tags = []\<rparr> (steps build))"
    by (simp add: run_instance_def Let_def split: if_splits)
  have f: "filter is_push (map (\<lambda>t. ImagePushed t c) ts) = map (\<lambda>t. ImagePushed t c) ts" for c ts
    by (induction ts) simp_all
  from n show ?thesis
    by (simp add: run_instance_def Let_def build_def step_def if_holds_def log_failed_Cons
        log_failed_def log_effects_def step_effects_def step_update_def bound_config_def
        f split: if_splits)
qed

lemma list_all_mp:
  "list_all (\<lambda>i. P i \<longrightarrow> Q i) xs \<Longrightarrow> list_all P xs \<Longrightarrow> list_all (\<lambda>i. P i \<and> Q i) xs"
  by (simp add: list_all_iff)

text \<open>
  Claim C6. Matrix expansion is total and keeps the declared order. A job without a matrix
  has exactly one instance (the empty binding). A job with one axis \<open>a\<close> of values \<open>vs\<close>
  has one instance per value, in the order of \<open>vs\<close>; the instance for \<open>v\<close> carries the
  binding \<open>a = v\<close>, which is what \<^verbatim>\<open>matrix.a\<close> reads in its steps, and the bindings are
  distinct when the values are.

  The binding is the one the instance's steps run under: an instance that succeeds is the
  run of the job's steps under its own binding, and a step of it ran exactly when the
  step's condition holds with \<^verbatim>\<open>matrix.a\<close> read from that binding. In every run
  \<^verbatim>\<open>lint\<close> and \<^verbatim>\<open>build\<close> have the three instances frontend, backend, ml-service in that
  order, the other jobs have one, and a \<^verbatim>\<open>build\<close> instance that succeeds pushes the tags
  of the image \<^verbatim>\<open>ghcr.io/<repository>/<component>\<close> named by its own binding.
\<close>

theorem matrix_expansion:
  "(matrix j = [] \<longrightarrow> map inst_binding (jr_instances (resolve ctx w dn j)) = [[]]) \<and>
   (matrix j = [(a, vs)] \<longrightarrow>
      map inst_binding (jr_instances (resolve ctx w dn j)) = map (\<lambda>v. [(a, v)]) vs \<and>
      length (jr_instances (resolve ctx w dn j)) = length vs \<and>
      (distinct vs \<longrightarrow> distinct (map inst_binding (jr_instances (resolve ctx w dn j)))) \<and>
      map (\<lambda>i. operand_value ctx (inst_binding i) (Matrix a)) (jr_instances (resolve ctx w dn j)) = vs) \<and>
   list_all (\<lambda>i. inst_state i = Success \<longrightarrow>
        i = run_instance ctx w j (inst_binding i) \<and>
        ran_steps (inst_log i) =
          map (\<lambda>s. (step_name s, if_holds ctx (inst_binding i) True False (step_if s))) (steps j))
     (jr_instances (resolve ctx w dn j)) \<and>
   (\<exists>res. run ctx w pipeline = Inr res \<and>
      map inst_binding (job_instances res ''lint'') =
        [[(''component'', ''frontend'')], [(''component'', ''backend'')], [(''component'', ''ml-service'')]] \<and>
      map inst_binding (job_instances res ''build'') =
        [[(''component'', ''frontend'')], [(''component'', ''backend'')], [(''component'', ''ml-service'')]] \<and>
      map inst_binding (job_instances res ''security-scan'') = [[]] \<and>
      map inst_binding (job_instances res ''test'') = [[]] \<and>
      map inst_binding (job_instances res ''deploy-staging'') = [[]] \<and>
      map inst_binding (job_instances res ''deploy-production'') = [[]] \<and>
      list_all (\<lambda>i. inst_state i = Success \<longrightarrow>
           filter is_push (log_effects (inst_log i)) =
             map (\<lambda>t. ImagePushed (image_name ctx (inst_binding i) @ '':'' @ t) (github_sha ctx))
               (concat (map (rule_tags ctx w) [RefBranch, RefPr, Semver ''{{version}}'', Sha Long []])))
        (job_instances res ''build''))"
proof -
  have p1: "matrix j = [] \<longrightarrow> map inst_binding (jr_instances (resolve ctx w dn j)) = [[]]"
    using resolve_bindings[of ctx w dn j] by simp
  have p2: "matrix j = [(a, vs)] \<longrightarrow>
      map inst_binding (jr_instances (resolve ctx w dn j)) = map (\<lambda>v. [(a, v)]) vs \<and>
      length (jr_instances (resolve ctx w dn j)) = length vs \<and>
      (distinct vs \<longrightarrow> distinct (map inst_binding (jr_instances (resolve ctx w dn j)))) \<and>
      map (\<lambda>i. operand_value ctx (inst_binding i) (Matrix a)) (jr_instances (resolve ctx w dn j)) = vs"
  proof (intro conjI impI)
    assume m: "matrix j = [(a, vs)]"
    then show b: "map inst_binding (jr_instances (resolve ctx w dn j)) = map (\<lambda>v. [(a, v)]) vs"
      using resolve_bindings[of ctx w dn j] by (simp add: expand_one_axis)
    from arg_cong[OF b, of length] show "length (jr_instances (resolve ctx w dn j)) = length vs"
      by simp
    have "map (\<lambda>i. operand_value ctx (inst_binding i) (Matrix a)) (jr_instances (resolve ctx w dn j))
        = map (\<lambda>b. operand_value ctx b (Matrix a)) (map inst_binding (jr_instances (resolve ctx w dn j)))"
      by (simp add: o_def)
    also have "\<dots> = vs" unfolding b by (simp add: o_def lookup_str_def)
    finally show "map (\<lambda>i. operand_value ctx (inst_binding i) (Matrix a))
        (jr_instances (resolve ctx w dn j)) = vs" .
    assume "distinct vs"
    with b show "distinct (map inst_binding (jr_instances (resolve ctx w dn j)))"
      by (simp add: distinct_one_axis)
  qed
  have p3: "list_all (\<lambda>i. inst_state i = Success \<longrightarrow>
        i = run_instance ctx w j (inst_binding i) \<and>
        ran_steps (inst_log i) =
          map (\<lambda>s. (step_name s, if_holds ctx (inst_binding i) True False (step_if s))) (steps j))
     (jr_instances (resolve ctx w dn j))"
    unfolding list_all_iff
  proof (intro ballI impI)
    fix i assume i: "i \<in> set (jr_instances (resolve ctx w dn j))" and s: "inst_state i = Success"
    from resolve_own[OF i s] have e: "i = run_instance ctx w j (inst_binding i)" .
    with s have "inst_state (run_instance ctx w j (inst_binding i)) = Success" by simp
    from run_instance_ran[OF this] e
    show "i = run_instance ctx w j (inst_binding i) \<and>
        ran_steps (inst_log i) =
          map (\<lambda>s. (step_name s, if_holds ctx (inst_binding i) True False (step_if s))) (steps j)"
      by simp
  qed
  from run_lookup[OF run_pipeline pipeline_distinct pipeline_members(4)] obtain dn' where
    l: "lookup_job (pipeline_results ctx w) (job_id build) = Some (resolve ctx w dn' build)"
    by blast
  have pushes: "list_all (\<lambda>i. inst_state i = Success \<longrightarrow>
           filter is_push (log_effects (inst_log i)) =
             map (\<lambda>t. ImagePushed (image_name ctx (inst_binding i) @ '':'' @ t) (github_sha ctx))
               (concat (map (rule_tags ctx w) [RefBranch, RefPr, Semver ''{{version}}'', Sha Long []])))
        (job_instances (pipeline_results ctx w) ''build'')"
    unfolding list_all_iff
  proof (intro ballI impI)
    fix i assume "i \<in> set (job_instances (pipeline_results ctx w) ''build'')"
      and s: "inst_state i = Success"
    with l have i: "i \<in> set (jr_instances (resolve ctx w dn' build))"
      by (simp add: job_instances_def)
    from resolve_own[OF i s] have e: "i = run_instance ctx w build (inst_binding i)" .
    with s have "inst_state (run_instance ctx w build (inst_binding i)) = Success" by simp
    from build_pushes[OF this] e
    show "filter is_push (log_effects (inst_log i)) =
             map (\<lambda>t. ImagePushed (image_name ctx (inst_binding i) @ '':'' @ t) (github_sha ctx))
               (concat (map (rule_tags ctx w) [RefBranch, RefPr, Semver ''{{version}}'', Sha Long []]))"
      by (simp add: extract_metadata_def o_def)
  qed
  have p4: "\<exists>res. run ctx w pipeline = Inr res \<and>
      map inst_binding (job_instances res ''lint'') =
        [[(''component'', ''frontend'')], [(''component'', ''backend'')], [(''component'', ''ml-service'')]] \<and>
      map inst_binding (job_instances res ''build'') =
        [[(''component'', ''frontend'')], [(''component'', ''backend'')], [(''component'', ''ml-service'')]] \<and>
      map inst_binding (job_instances res ''security-scan'') = [[]] \<and>
      map inst_binding (job_instances res ''test'') = [[]] \<and>
      map inst_binding (job_instances res ''deploy-staging'') = [[]] \<and>
      map inst_binding (job_instances res ''deploy-production'') = [[]] \<and>
      list_all (\<lambda>i. inst_state i = Success \<longrightarrow>
           filter is_push (log_effects (inst_log i)) =
             map (\<lambda>t. ImagePushed (image_name ctx (inst_binding i) @ '':'' @ t) (github_sha ctx))
               (concat (map (rule_tags ctx w) [RefBranch, RefPr, Semver ''{{version}}'', Sha Long []])))
        (job_instances res ''build'')"
    using pipeline_bindings[of lint ctx w] pipeline_bindings[of build ctx w]
      pipeline_bindings[of security_scan ctx w] pipeline_bindings[of test ctx w]
      pipeline_bindings[of deploy_staging ctx w] pipeline_bindings[of deploy_production ctx w]
      pipeline_members pushes
    by (simp add: run_pipeline job_matrices)
  show ?thesis by (rule conjI[OF p1 conjI[OF p2 conjI[OF p3 p4]]])
qed

text \<open>
  On a push to \<^verbatim>\<open>main\<close> with every step green: the three \<^verbatim>\<open>lint\<close> instances, the steps
  each of them ran, the single instance of \<^verbatim>\<open>test\<close>, which runs once \<^verbatim>\<open>lint\<close> is done, and
  the images each \<^verbatim>\<open>build\<close> instance pushes.
\<close>

lemma lint_green:
  "list_all (\<lambda>i. inst_state i = Success) (jr_instances (resolve (on_push ''main'') all_green [] lint))"
  "map (\<lambda>i. map fst (filter snd (ran_steps (inst_log i))))
      (jr_instances (resolve (on_push ''main'') all_green [] lint)) =
     [[''Checkout repository'', ''Set up Node.js (Frontend)'', ''Install frontend dependencies'',
       ''Lint frontend''],
      [''Checkout repository'', ''Set up Python (Backend & ML Service)'',
       ''Install backend dependencies'', ''Lint backend''],
      [''Checkout repository'', ''Set up Python (Backend & ML Service)'',
       ''Install ML service dependencies'', ''Lint ML service'']]"
  "map inst_state (jr_instances (resolve (on_push ''main'') all_green
      [resolve (on_push ''main'') all_green [] lint] test)) = [Success]"
  by code_simp+

lemma build_green:
  "list_all (\<lambda>i. inst_state i = Success)
     (job_instances (pipeline_results (on_push ''main'') all_green) ''build'')"
  "map (\<lambda>i. filter is_push (log_effects (inst_log i)))
     (job_instances (pipeline_results (on_push ''main'') all_green) ''build'') =
     [[ImagePushed ''ghcr.io/acme/image-processor/frontend:main'' sample_sha,
       ImagePushed (''ghcr.io/acme/image-processor/frontend:'' @ sample_sha) sample_sha],
      [ImagePushed ''ghcr.io/acme/image-processor/backend:main'' sample_sha,
       ImagePushed (''ghcr.io/acme/image-processor/backend:'' @ sample_sha) sample_sha],
      [ImagePushed ''ghcr.io/acme/image-processor/ml-service:main'' sample_sha,
       ImagePushed (''ghcr.io/acme/image-processor/ml-service:'' @ sample_sha) sample_sha]]"
  by code_simp+

theorem matrix_expansion_witness:
  "map inst_binding (jr_instances (resolve (on_push ''main'') all_green [] lint)) =
     [[(''component'', ''frontend'')], [(''component'', ''backend'')], [(''component'', ''ml-service'')]] \<and>
   length (jr_instances (resolve (on_push ''main'') all_green [] lint)) = 3 \<and>
   distinct (map inst_binding (jr_instances (resolve (on_push ''main'') all_green [] lint))) \<and>
   map (\<lambda>i. operand_value (on_push ''main'') (inst_binding i) (Matrix ''component''))
     (jr_instances (resolve (on_push ''main'') all_green [] lint)) = [''frontend'', ''backend'', ''ml-service''] \<and>
   map inst_binding (jr_instances (resolve (on_push ''main'') all_green
      [resolve (on_push ''main'') all_green [] lint] test)) = [[]] \<and>
   map inst_state (jr_instances (resolve (on_push ''main'') all_green
      [resolve (on_push ''main'') all_green [] lint] test)) = [Success] \<and>
   list_all (\<lambda>i. inst_state i = Success \<and>
        (i = run_instance (on_push ''main'') all_green lint (inst_binding i) \<and>
         ran_steps (inst_log i) =
           map (\<lambda>s. (step_name s, if_holds (on_push ''main'') (inst_binding i) True False (step_if s)))
             (steps lint)))
     (jr_instances (resolve (on_push ''main'') all_green [] lint)) \<and>
   map (\<lambda>i. map fst (filter snd (ran_steps (inst_log i))))
      (jr_instances (resolve (on_push ''main'') all_green [] lint)) =
     [[''Checkout repository'', ''Set up Node.js (Frontend)'', ''Install frontend dependencies'',
       ''Lint frontend''],
      [''Checkout repository'', ''Set up Python (Backend & ML Service)'',
       ''Install backend dependencies'', ''Lint backend''],
      [''Checkout repository'', ''Set up Python (Backend & ML Service)'',
       ''Install ML service dependencies'', ''Lint ML service'']] \<and>
   list_all (\<lambda>i. inst_state i = Success \<and>
        filter is_push (log_effects (inst_log i)) =
          map (\<lambda>t. ImagePushed (image_name (on_push ''main'') (inst_binding i) @ '':'' @ t)
                     (github_sha (on_push ''main'')))
            (concat (map (rule_tags (on_push ''main'') all_green)
               [RefBranch, RefPr, Semver ''{{version}}'', Sha Long []])))
     (job_instances (pipeline_results (on_push ''main'') all_green) ''build'') \<and>
   map (\<lambda>i. filter is_push (log_effects (inst_log i)))
     (job_instances (pipeline_results (on_push ''main'') all_green) ''build'') =
     [[ImagePushed ''ghcr.io/acme/image-processor/frontend:main'' sample_sha,
       ImagePushed (''ghcr.io/acme/image-processor/frontend:'' @ sample_sha) sample_sha],
      [ImagePushed ''ghcr.io/acme/image-processor/backend:main'' sample_sha,
       ImagePushed (''ghcr.io/acme/image-processor/backend:'' @ sample_sha) sample_sha],
      [ImagePushed ''ghcr.io/acme/image-processor/ml-service:main'' sample_sha,
       ImagePushed (''ghcr.io/acme/image-processor/ml-service:'' @ sample_sha) sample_sha]]"
proof -
  have m: "matrix lint = [(''component'', [''frontend'', ''backend'', ''ml-service''])]"
    "matrix test = []"
    by (simp_all add: lint_def test_def components_def)
  note t = matrix_expansion[where j = lint and a = "''component''"
        and vs = "[''frontend'', ''backend'', ''ml-service'']"
        and ctx = "on_push ''main''" and w = all_green and dn = "[]"]
  note u = matrix_expansion[where j = test and ctx = "on_push ''main''" and w = all_green
        and dn = "[resolve (on_push ''main'') all_green [] lint]"]
  from t[THEN conjunct2, THEN conjunct1, THEN mp, OF m(1)]
  have a: "map inst_binding (jr_instances (resolve (on_push ''main'') all_green [] lint)) =
     [[(''component'', ''frontend'')], [(''component'', ''backend'')], [(''component'', ''ml-service'')]] \<and>
   length (jr_instances (resolve (on_push ''main'') all_green [] lint)) = 3 \<and>
   distinct (map inst_binding (jr_instances (resolve (on_push ''main'') all_green [] lint))) \<and>
   map (\<lambda>i. operand_value (on_push ''main'') (inst_binding i) (Matrix ''component''))
     (jr_instances (resolve (on_push ''main'') all_green [] lint)) = [''frontend'', ''backend'', ''ml-service'']"
    by simp
  from u[THEN conjunct1, THEN mp, OF m(2)]
  have b: "map inst_binding (jr_instances (resolve (on_push ''main'') all_green
      [resolve (on_push ''main'') all_green [] lint] test)) = [[]]" .
  note c = list_all_mp[OF t[THEN conjunct2, THEN conjunct2, THEN conjunct1] lint_green(1)]
  note d = list_all_mp[OF inr_result[OF t[THEN conjunct2, THEN conjunct2, THEN conjunct2] run_pipeline,
        THEN conjunct2, THEN conjunct2, THEN conjunct2, THEN conjunct2, THEN conjunct2, THEN conjunct2]
      build_green(1)]
  from a[THEN conjunct1] a[THEN conjunct2, THEN conjunct1]
    a[THEN conjunct2, THEN conjunct2, THEN conjunct1] a[THEN conjunct2, THEN conjunct2, THEN conjunct2]
    b lint_green(3) c lint_green(2) d build_green(2)
  show ?thesis by (intro conjI)
qed

section \<open>The production gate\<close>

text \<open>
  The specification asks that production be promoted only after staging's most recent
  promotion of the same commit succeeded, unless production was dispatched by hand. To
  state that requirement, a history lists the earlier runs (oldest first) with their
  results; \<open>staging_last_succeeded\<close> reads the requirement off a history.
\<close>

type_synonym history = "(RunContext \<times> JobResult list) list"

definition staging_promotions :: "history \<Rightarrow> string \<Rightarrow> job_state list" where
  "staging_promotions hist commit =
     concat (map (\<lambda>(c, res). if github_sha c = commit
                    then filter (\<lambda>s. s \<noteq> Skipped) (map inst_state (job_instances res ''deploy-staging''))
                    else []) hist)"

definition staging_last_succeeded :: "history \<Rightarrow> string \<Rightarrow> bool" where
  "staging_last_succeeded hist commit =
     (case rev (staging_promotions hist commit) of [] \<Rightarrow> False | s # ss \<Rightarrow> s = Success)"

definition dispatch_to_production :: "RunContext \<Rightarrow> bool" where
  "dispatch_to_production ctx =
     (github_event ctx = WorkflowDispatch \<and>
      str_eq (lookup_str (github_inputs ctx) ''environment'') ''production'')"

definition production_deployed :: "JobResult list \<Rightarrow> bool" where
  "production_deployed res = list_ex (applies_dir ''k8s/production'') (run_effects res)"

lemma production_rule:
  "rule_matches ctx deploy_production =
     (github_event ctx = Push \<and> str_eq (github_ref ctx) ''refs/heads/main'' \<or> dispatch_to_production ctx)"
  by (auto simp: rule_matches_def deploy_production_def dispatch_to_production_def)

lemma lookup_job_distinct:
  "distinct (map jr_name xs) \<Longrightarrow> r \<in> set xs \<Longrightarrow> lookup_job xs (jr_name r) = Some r"
  by (induction xs) (auto simp: lookup_job_def)

lemma results_distinct: "distinct (map jr_name (pipeline_results ctx w))"
  by (simp add: pipeline_results_def Let_def)

lemma built_pipeline: "built ctx w (set pipeline) (pipeline_results ctx w)"
  using schedule_built[of ctx w pipeline "[]" "pipeline_results ctx w" "set pipeline"] run_pipeline[of ctx w]
  by (auto simp: run_def intro: built_nil)

text \<open>An effect of the run belongs to one job, which ran with all its needs satisfied.\<close>

lemma effect_origin:
  assumes "e \<in> set (run_effects (pipeline_results ctx w))"
  shows "\<exists>j\<in>set pipeline. \<exists>dn s st. s \<in> set (steps j) \<and> e \<in> set (step_effects ctx j st s) \<and>
     lookup_job (pipeline_results ctx w) (job_id j) = Some (resolve ctx w dn j) \<and>
     if_holds ctx [] (upstream_ok dn j) (upstream_failed dn j) (job_if j) \<and>
     (\<forall>m\<in>set (needs j). lookup_job dn m = lookup_job (pipeline_results ctx w) m)"
proof -
  from assms obtain r where r: "r \<in> set (pipeline_results ctx w)" "e \<in> set (job_effects r)"
    by (auto simp: run_effects_def)
  from lookup_job_distinct[OF results_distinct r(1)]
  have l: "lookup_job (pipeline_results ctx w) (jr_name r) = Some r" .
  from built_lookup[OF built_pipeline l] obtain j dn where j: "j \<in> set pipeline"
    "job_id j = jr_name r" "r = resolve ctx w dn j"
    "\<forall>m\<in>set (needs j). lookup_job dn m \<noteq> None \<and> lookup_job dn m = lookup_job (pipeline_results ctx w) m"
    by blast
  from r(2) j(3) resolve_effects[of e ctx w dn j] obtain s st where
    "if_holds ctx [] (upstream_ok dn j) (upstream_failed dn j) (job_if j)"
    "s \<in> set (steps j)" "e \<in> set (step_effects ctx j st s)" by blast
  with j l show ?thesis by (intro bexI[of _ j] exI[of _ dn] exI[of _ s] exI[of _ st]) auto
qed

lemma ok_all_success:
  "jr_ok (resolve ctx w dn j) \<Longrightarrow>
   map inst_state (jr_instances (resolve ctx w dn j)) = map (\<lambda>b. Success) (expand (matrix j))"
proof -
  assume a: "jr_ok (resolve ctx w dn j)"
  then have "\<forall>i\<in>set (jr_instances (resolve ctx w dn j)). inst_state i = Success"
    by (auto simp: resolve_def Let_def list_all_iff split: if_splits)
  then have "map inst_state (jr_instances (resolve ctx w dn j))
      = map (\<lambda>i. Success) (jr_instances (resolve ctx w dn j))" by simp
  also have "\<dots> = map (\<lambda>b. Success) (map inst_binding (jr_instances (resolve ctx w dn j)))"
    by (simp add: o_def)
  finally show ?thesis by (simp add: resolve_bindings)
qed

text \<open>
  Claim C3, as the workflow has it. Production is deployed only in a run whose trigger is
  a push on main or a dispatch with \<^verbatim>\<open>environment = production\<close> and in which all three
  build instances succeeded. In such a run \<^verbatim>\<open>deploy-staging\<close> is skipped; the run reads
  nothing of earlier runs.
\<close>

theorem production_gate:
  "\<exists>res. run ctx w pipeline = Inr res \<and>
     (production_deployed res \<longrightarrow>
        (github_event ctx = Push \<and> str_eq (github_ref ctx) ''refs/heads/main'' \<or>
         dispatch_to_production ctx) \<and>
        map inst_state (job_instances res ''build'') = [Success, Success, Success] \<and>
        map inst_state (job_instances res ''deploy-staging'') = [Skipped])"
proof -
  let ?res = "pipeline_results ctx w"
  have "(github_event ctx = Push \<and> str_eq (github_ref ctx) ''refs/heads/main'' \<or>
         dispatch_to_production ctx) \<and>
        map inst_state (job_instances ?res ''build'') = [Success, Success, Success] \<and>
        map inst_state (job_instances ?res ''deploy-staging'') = [Skipped]"
    if p: "production_deployed ?res"
  proof -
    from p applies_dir_ex obtain m where
      "ManifestApplied ''k8s/production'' m \<in> set (run_effects ?res)"
      unfolding production_deployed_def by blast
    from effect_origin[OF this] obtain j dn s st where j: "j \<in> set pipeline" "s \<in> set (steps j)"
      "ManifestApplied ''k8s/production'' m \<in> set (step_effects ctx j st s)"
      "if_holds ctx [] (upstream_ok dn j) (upstream_failed dn j) (job_if j)"
      "\<forall>m\<in>set (needs j). lookup_job dn m = lookup_job ?res m" by blast
    from step_effects_apply[OF j(3)] apply_steps[OF j(2) _ j(1)] have jp: "j = deploy_production"
      by auto
    with j(4) have ok: "upstream_ok dn deploy_production" and rm: "rule_matches ctx deploy_production"
      by (simp_all add: deploy_if_holds)
    from run_lookup[OF run_pipeline pipeline_distinct pipeline_members(4), of ctx w]
    obtain db where b: "lookup_job ?res ''build'' = Some (resolve ctx w db build)" by auto
    with j(5) jp have "lookup_job dn ''build'' = Some (resolve ctx w db build)" by simp
    with ok have "jr_ok (resolve ctx w db build)" by (simp add: upstream_ok_def)
    from ok_all_success[OF this] b
    have bs: "map inst_state (job_instances ?res ''build'') = [Success, Success, Success]"
      by (simp add: job_instances_def job_matrices)
    from rm deploy_rules_exclusive[of ctx] have "\<not> rule_matches ctx deploy_staging" by blast
    with job_not_held[of deploy_staging ctx w]
    have "map inst_state (job_instances ?res ''deploy-staging'') = [Skipped]"
      by (simp add: deploy_if_holds pipeline_members job_matrices skipped_instance_def)
    with bs rm show ?thesis by (simp add: production_rule)
  qed
  then show ?thesis by (auto simp: run_pipeline)
qed

lemma main_deploys: "production_deployed (pipeline_results (on_push ''main'') all_green)"
  by code_simp

theorem production_gate_witness:
  "\<exists>res. run (on_push ''main'') all_green pipeline = Inr res \<and>
     production_deployed res \<and>
     github_event (on_push ''main'') = Push \<and>
     map inst_state (job_instances res ''build'') = [Success, Success, Success] \<and>
     map inst_state (job_instances res ''deploy-staging'') = [Skipped]"
proof -
  from production_gate[of "on_push ''main''" all_green] obtain res where
    r: "run (on_push ''main'') all_green pipeline = Inr res"
    and i: "production_deployed res \<longrightarrow>
        (github_event (on_push ''main'') = Push \<and> str_eq (github_ref (on_push ''main'')) ''refs/heads/main'' \<or>
         dispatch_to_production (on_push ''main'')) \<and>
        map inst_state (job_instances res ''build'') = [Success, Success, Success] \<and>
        map inst_state (job_instances res ''deploy-staging'') = [Skipped]" by (elim exE conjE)
  from r run_pipeline[of "on_push ''main''" all_green]
  have "res = pipeline_results (on_push ''main'') all_green" by (simp only: sum.inject)
  with main_deploys have d: "production_deployed res" by (simp only:)
  have e: "github_event (on_push ''main'') = Push" by (simp add: on_push_def)
  from i d have "map inst_state (job_instances res ''build'') = [Success, Success, Success]"
    "map inst_state (job_instances res ''deploy-staging'') = [Skipped]" by (simp_all only:)
  with r d e show ?thesis by (intro exI[of _ res] conjI)
qed

text \<open>
  The commit was pushed to develop and its staging promotion failed (health endpoint
  down); the same commit is then pushed to main, not dispatched, and production is
  deployed.
\<close>

theorem production_gate_counterexample:
  "map inst_state (job_instances (pipeline_results (on_push ''develop'') health_down) ''deploy-staging'')
     = [Failure] \<and>
   github_sha (on_push ''develop'') = github_sha (on_push ''main'') \<and>
   \<not> staging_last_succeeded
       [(on_push ''develop'', pipeline_results (on_push ''develop'') health_down)]
       (github_sha (on_push ''main'')) \<and>
   \<not> dispatch_to_production (on_push ''main'') \<and>
   production_deployed (pipeline_results (on_push ''main'') all_green)"
  by code_simp

section \<open>Two runs of the same workflow\<close>























section \<open>Image tags: published and deployed\<close>

text \<open>
  Claim C8, at a push of commit \<^verbatim>\<open>0123456789abcdef0123456789abcdef01234567\<close> to main
  with every step green. \<^verbatim>\<open>build\<close> and \<^verbatim>\<open>deploy-production\<close> succeed. The build
  publishes each image under the branch name and under the full commit SHA; the applied
  manifests reference each image under \<^verbatim>\<open>sha-0123456\<close>, and none of these references is
  among the published ones.
\<close>

lemma main_green_states:
  "map inst_state (job_instances (pipeline_results (on_push ''main'') all_green) ''build'')
     = [Success, Success, Success]"
  "map inst_state (job_instances (pipeline_results (on_push ''main'') all_green) ''deploy-production'')
     = [Success]"
  by code_simp+

lemma main_green_published:
  "published_refs (pipeline_results (on_push ''main'') all_green) =
     [''ghcr.io/acme/image-processor/frontend:main'',
      ''ghcr.io/acme/image-processor/frontend:0123456789abcdef0123456789abcdef01234567'',
      ''ghcr.io/acme/image-processor/backend:main'',
      ''ghcr.io/acme/image-processor/backend:0123456789abcdef0123456789abcdef01234567'',
      ''ghcr.io/acme/image-processor/ml-service:main'',
      ''ghcr.io/acme/image-processor/ml-service:0123456789abcdef0123456789abcdef01234567'']"
  by code_simp

lemma main_green_deployed:
  "deploy_refs (pipeline_results (on_push ''main'') all_green) =
     [''ghcr.io/acme/image-processor/frontend:sha-0123456'',
      ''ghcr.io/acme/image-processor/backend:sha-0123456'',
      ''ghcr.io/acme/image-processor/ml-service:sha-0123456'']"
  by code_simp

theorem deploy_tag_not_published:
  "map inst_state (job_instances (pipeline_results (on_push ''main'') all_green) ''build'')
     = [Success, Success, Success] \<and>
   map inst_state (job_instances (pipeline_results (on_push ''main'') all_green) ''deploy-production'')
     = [Success] \<and>
   published_refs (pipeline_results (on_push ''main'') all_green) =
     [''ghcr.io/acme/image-processor/frontend:main'',
      ''ghcr.io/acme/image-processor/frontend:0123456789abcdef0123456789abcdef01234567'',
      ''ghcr.io/acme/image-processor/backend:main'',
      ''ghcr.io/acme/image-processor/backend:0123456789abcdef0123456789abcdef01234567'',
      ''ghcr.io/acme/image-processor/ml-service:main'',
      ''ghcr.io/acme/image-processor/ml-service:0123456789abcdef0123456789abcdef01234567''] \<and>
   deploy_refs (pipeline_results (on_push ''main'') all_green) =
     [''ghcr.io/acme/image-processor/frontend:sha-0123456'',
      ''ghcr.io/acme/image-processor/backend:sha-0123456'',
      ''ghcr.io/acme/image-processor/ml-service:sha-0123456''] \<and>
   list_all (\<lambda>r. r \<notin> set (published_refs (pipeline_results (on_push ''main'') all_green)))
     (deploy_refs (pipeline_results (on_push ''main'') all_green))"
proof -
  have "list_all (\<lambda>r. r \<notin> set (published_refs (pipeline_results (on_push ''main'') all_green)))
     (deploy_refs (pipeline_results (on_push ''main'') all_green))"
    unfolding main_green_published main_green_deployed by simp
  with main_green_states main_green_published main_green_deployed show ?thesis
    by (intro conjI)
qed

end
